theory Spec2Isabelle
  imports Complex_Main
begin

section \<open>Product import from a spreadsheet into a remote store\<close>

text \<open>
  A shallow embedding of \<^verbatim>\<open>import_products_from_excel.py\<close>. Exceptions are values of
  a sum type, the remote server is a parameter that answers every call as a function of the
  calls made so far, and the calls a function issues are appended to a trace, so that
  "no remote call" and "at most k remote calls" are statements about that trace.
\<close>

subsection \<open>Python strings\<close>

text \<open>
  A Python \<^verbatim>\<open>str\<close> is modelled by a \<^typ>\<open>string\<close> whose characters are the code points
  U+0000 to U+00FF, one \<^typ>\<open>char\<close> per code point: the affirmative "Si" written with an acute
  accent on the i (U+00ED) is \<open>[CHR ''S'', CHR 0xED]\<close>. Strings with code points beyond U+00FF are outside the model.
\<close>

definition whitespace :: "char list" where
  \<comment> \<open>the code points below U+0100 for which \<^verbatim>\<open>str.isspace\<close> holds\<close>
  "whitespace = [CHR 0x09, CHR 0x0A, CHR 0x0B, CHR 0x0C, CHR 0x0D, CHR 0x1C, CHR 0x1D,
                 CHR 0x1E, CHR 0x1F, CHR 0x20, CHR 0x85, CHR 0xA0]"

definition isspace :: "char \<Rightarrow> bool" where
  "isspace c = (c \<in> set whitespace)"

definition strip :: "string \<Rightarrow> string" where
  \<comment> \<open>\<^verbatim>\<open>s.strip()\<close>\<close>
  "strip s = rev (dropWhile isspace (rev (dropWhile isspace s)))"

definition upper_chars :: "char list" where
  \<comment> \<open>A-Z and the Latin-1 capitals U+00C0..U+00DE, without the multiplication sign U+00D7\<close>
  "upper_chars = ''ABCDEFGHIJKLMNOPQRSTUVWXYZ'' @
     [CHR 0xC0, CHR 0xC1, CHR 0xC2, CHR 0xC3, CHR 0xC4, CHR 0xC5, CHR 0xC6, CHR 0xC7,
      CHR 0xC8, CHR 0xC9, CHR 0xCA, CHR 0xCB, CHR 0xCC, CHR 0xCD, CHR 0xCE, CHR 0xCF,
      CHR 0xD0, CHR 0xD1, CHR 0xD2, CHR 0xD3, CHR 0xD4, CHR 0xD5, CHR 0xD6, CHR 0xD8,
      CHR 0xD9, CHR 0xDA, CHR 0xDB, CHR 0xDC, CHR 0xDD, CHR 0xDE]"

definition lower_chars :: "char list" where
  \<comment> \<open>their lower-case forms, 32 code points up, in the same order\<close>
  "lower_chars = ''abcdefghijklmnopqrstuvwxyz'' @
     [CHR 0xE0, CHR 0xE1, CHR 0xE2, CHR 0xE3, CHR 0xE4, CHR 0xE5, CHR 0xE6, CHR 0xE7,
      CHR 0xE8, CHR 0xE9, CHR 0xEA, CHR 0xEB, CHR 0xEC, CHR 0xED, CHR 0xEE, CHR 0xEF,
      CHR 0xF0, CHR 0xF1, CHR 0xF2, CHR 0xF3, CHR 0xF4, CHR 0xF5, CHR 0xF6, CHR 0xF8,
      CHR 0xF9, CHR 0xFA, CHR 0xFB, CHR 0xFC, CHR 0xFD, CHR 0xFE]"

definition lower_char :: "char \<Rightarrow> char" where
  \<comment> \<open>every other code point below U+0100 is its own lower case\<close>
  "lower_char c = (case map_of (zip upper_chars lower_chars) c of Some d \<Rightarrow> d | None \<Rightarrow> c)"

definition lower :: "string \<Rightarrow> string" where
  \<comment> \<open>\<^verbatim>\<open>s.lower()\<close>\<close>
  "lower s = map lower_char s"

definition digit_chars :: "char list" where
  \<comment> \<open>the code points below U+0100 for which \<^verbatim>\<open>str.isdigit\<close> holds: 0-9 and the
      superscripts two, three and one\<close>
  "digit_chars = ''0123456789'' @ [CHR 0xB2, CHR 0xB3, CHR 0xB9]"

definition isdigit :: "string \<Rightarrow> bool" where
  \<comment> \<open>\<^verbatim>\<open>s.isdigit()\<close>: non-empty and every character a digit\<close>
  "isdigit s = (s \<noteq> [] \<and> list_all (\<lambda>c. c \<in> set digit_chars) s)"

definition replace_comma :: "string \<Rightarrow> string" where
  \<comment> \<open>\<^verbatim>\<open>s.replace(",", ".")\<close>\<close>
  "replace_comma s = map (\<lambda>c. if c = CHR '','' then CHR ''.'' else c) s"

definition has_dot :: "string \<Rightarrow> bool" where
  \<comment> \<open>\<^verbatim>\<open>"." in s\<close>\<close>
  "has_dot s = (CHR ''.'' \<in> set s)"

definition split_dot :: "string \<Rightarrow> string \<times> string" where
  \<comment> \<open>\<^verbatim>\<open>s.split(".", 1)\<close> for a string that contains a dot\<close>
  "split_dot s = (takeWhile (\<lambda>c. c \<noteq> CHR ''.'') s, drop 1 (dropWhile (\<lambda>c. c \<noteq> CHR ''.'') s))"

definition or_str :: "string \<Rightarrow> string \<Rightarrow> string" where
  \<comment> \<open>\<^verbatim>\<open>a or b\<close> on strings\<close>
  "or_str a b = (if a \<noteq> [] then a else b)"

subsection \<open>Exceptions, floats, cells and the built-ins\<close>

datatype fault = Fault string
  \<comment> \<open>an exception derived from \<^verbatim>\<open>Exception\<close>, carrying \<^verbatim>\<open>str(e)\<close>\<close>

datatype pyfloat = Finite rat | NegZero | NaN | PosInf | NegInf
  \<comment> \<open>a Python \<^verbatim>\<open>float\<close>; \<open>Finite 0\<close> is \<^verbatim>\<open>0.0\<close>\<close>

definition float_truthy :: "pyfloat \<Rightarrow> bool" where
  \<comment> \<open>\<^verbatim>\<open>bool(f)\<close>: false for the two zeros only\<close>
  "float_truthy f = (case f of Finite r \<Rightarrow> r \<noteq> 0 | NegZero \<Rightarrow> False | _ \<Rightarrow> True)"

datatype cell = CNone | CBool bool | CInt int | CFloat pyfloat | CStr string
  \<comment> \<open>the raw scalar of one spreadsheet cell; a blank cell read by pandas is \<open>CFloat NaN\<close>\<close>

record builtins =
  int_str :: "string \<Rightarrow> fault + int"          \<comment> \<open>\<^verbatim>\<open>int(s)\<close>\<close>
  float_str :: "string \<Rightarrow> fault + pyfloat"    \<comment> \<open>\<^verbatim>\<open>float(s)\<close>\<close>
  str_int :: "int \<Rightarrow> string"                  \<comment> \<open>\<^verbatim>\<open>str(i)\<close>\<close>
  str_float :: "pyfloat \<Rightarrow> string"            \<comment> \<open>\<^verbatim>\<open>str(f)\<close>\<close>
  float_int :: "int \<Rightarrow> pyfloat"              \<comment> \<open>\<^verbatim>\<open>float(i)\<close>\<close>

definition py_str :: "builtins \<Rightarrow> cell \<Rightarrow> string" where
  \<comment> \<open>\<^verbatim>\<open>str(v)\<close>\<close>
  "py_str b v = (case v of
       CNone \<Rightarrow> ''None''
     | CBool x \<Rightarrow> (if x then ''True'' else ''False'')
     | CInt i \<Rightarrow> str_int b i
     | CFloat f \<Rightarrow> str_float b f
     | CStr s \<Rightarrow> s)"

definition isna :: "cell \<Rightarrow> bool" where
  \<comment> \<open>\<^verbatim>\<open>pd.isna(v)\<close>\<close>
  "isna v = (v = CNone \<or> v = CFloat NaN)"

subsection \<open>General helpers\<close>

definition truthy_tokens :: "string list" where
  "truthy_tokens = [''1'', ''true'', ''t'', ''si'', [CHR ''s'', CHR 0xED], ''yes'', ''y'', ''x'', ''s'']"

definition to_bool :: "builtins \<Rightarrow> cell \<Rightarrow> bool" where
  \<comment> \<open>\<^verbatim>\<open>_to_bool\<close>\<close>
  "to_bool b v = (case v of
       CNone \<Rightarrow> False
     | CBool x \<Rightarrow> x
     | _ \<Rightarrow> lower (strip (py_str b v)) \<in> set truthy_tokens)"

definition try_except :: "fault + 'a \<Rightarrow> (fault \<Rightarrow> fault + 'a) \<Rightarrow> fault + 'a" where
  \<comment> \<open>\<^verbatim>\<open>try: ... except Exception as e: ...\<close>\<close>
  "try_except m h = (case m of Inl e \<Rightarrow> h e | Inr x \<Rightarrow> Inr x)"

definition to_float :: "builtins \<Rightarrow> cell \<Rightarrow> fault + pyfloat" where
  \<comment> \<open>\<^verbatim>\<open>_to_float\<close>\<close>
  "to_float b v =
     (if v = CNone \<or> v = CStr [] then Inr (Finite 0)
      else try_except (float_str b (replace_comma (py_str b v))) (\<lambda>e. Inr (Finite 0)))"

definition safe_str :: "builtins \<Rightarrow> cell \<Rightarrow> string" where
  \<comment> \<open>\<^verbatim>\<open>_safe_str\<close>\<close>
  "safe_str b v = (if isna v then [] else if v = CNone then [] else strip (py_str b v))"

subsection \<open>The remote client (XML-RPC)\<close>

datatype pyval = VStr string | VInt int | VFloat pyfloat | VBool bool

type_synonym domain = "(string \<times> string \<times> pyval) list"
type_synonym vals = "string \<rightharpoonup> pyval"

datatype rpc_call =
    Authenticate
  | Search string domain nat
  | Create string vals
  | Write string "int list" vals
  | Read string "int list" "string list"

type_synonym trace = "rpc_call list"

text \<open>
  The server is a parameter: each remote method answers with a value or with an exception,
  as a function of the calls made so far, of the caller's user id and of the arguments.
  A user id or a field value that the server sends as \<^verbatim>\<open>False\<close> is the integer 0.
\<close>

record server =
  rpc_authenticate :: "trace \<Rightarrow> fault + int"
  rpc_search :: "trace \<Rightarrow> int \<Rightarrow> string \<Rightarrow> domain \<Rightarrow> nat \<Rightarrow> fault + int list"
  rpc_create :: "trace \<Rightarrow> int \<Rightarrow> string \<Rightarrow> vals \<Rightarrow> fault + int"
  rpc_write :: "trace \<Rightarrow> int \<Rightarrow> string \<Rightarrow> int list \<Rightarrow> vals \<Rightarrow> fault + bool"
  rpc_read :: "trace \<Rightarrow> int \<Rightarrow> string \<Rightarrow> int list \<Rightarrow> string list \<Rightarrow> fault + (string \<rightharpoonup> int) list"

type_synonym 'a io = "trace \<Rightarrow> (fault + 'a) \<times> trace"

definition io_return :: "'a \<Rightarrow> 'a io" where
  "io_return x tr = (Inr x, tr)"

definition io_lift :: "fault + 'a \<Rightarrow> 'a io" where
  \<comment> \<open>a computation that raises or returns without a remote call\<close>
  "io_lift r tr = (r, tr)"

definition io_bind :: "'a io \<Rightarrow> ('a \<Rightarrow> 'b io) \<Rightarrow> 'b io" where
  \<comment> \<open>sequencing: an exception of the first part skips the rest\<close>
  "io_bind m f tr = (case m tr of (Inl e, tr') \<Rightarrow> (Inl e, tr') | (Inr x, tr') \<Rightarrow> f x tr')"

record odoo_client =
  uid :: int

definition OdooClient :: "server \<Rightarrow> odoo_client io" where
  \<comment> \<open>\<^verbatim>\<open>OdooClient.__init__\<close>: authenticate once, fail on a false user id\<close>
  "OdooClient srv tr =
     (case rpc_authenticate srv tr of
        Inl e \<Rightarrow> (Inl e, tr @ [Authenticate])
      | Inr u \<Rightarrow> if u = 0 then (Inl (Fault ''Error autenticando en Odoo.''), tr @ [Authenticate])
                 else (Inr \<lparr>uid = u\<rparr>, tr @ [Authenticate]))"

definition client_search :: "server \<Rightarrow> odoo_client \<Rightarrow> string \<Rightarrow> domain \<Rightarrow> nat \<Rightarrow> int list io" where
  "client_search srv c model domain limit tr =
     (rpc_search srv tr (uid c) model domain limit, tr @ [Search model domain limit])"

definition client_create :: "server \<Rightarrow> odoo_client \<Rightarrow> string \<Rightarrow> vals \<Rightarrow> int io" where
  "client_create srv c model vs tr =
     (rpc_create srv tr (uid c) model vs, tr @ [Create model vs])"

definition client_write :: "server \<Rightarrow> odoo_client \<Rightarrow> string \<Rightarrow> int list \<Rightarrow> vals \<Rightarrow> bool io" where
  "client_write srv c model ids vs tr =
     (rpc_write srv tr (uid c) model ids vs, tr @ [Write model ids vs])"

definition client_read ::
  "server \<Rightarrow> odoo_client \<Rightarrow> string \<Rightarrow> int list \<Rightarrow> string list \<Rightarrow> (string \<rightharpoonup> int) list io" where
  "client_read srv c model ids fnames tr =
     (rpc_read srv tr (uid c) model ids fnames, tr @ [Read model ids fnames])"

subsection \<open>The product importer\<close>

text \<open>
  \<^verbatim>\<open>ensure_category\<close> is a sequence of four blocks, each of which either returns from the
  function or falls through to the next. A block is modelled by a computation of an
  optional id: \<open>Some i\<close> is \<^verbatim>\<open>return i\<close>, \<open>None\<close> is falling through.
\<close>

definition or_else :: "'a option io \<Rightarrow> 'a option io \<Rightarrow> 'a option io" where
  "or_else m k = io_bind m (\<lambda>r. case r of Some i \<Rightarrow> io_return (Some i) | None \<Rightarrow> k)"

definition bound_id :: "(string \<rightharpoonup> int) list \<Rightarrow> int option" where
  \<comment> \<open>\<^verbatim>\<open>rec[0]["res_id"] if rec and rec[0].get("res_id")\<close>\<close>
  "bound_id recs = (case recs of
       [] \<Rightarrow> None
     | r # _ \<Rightarrow> (case r ''res_id'' of None \<Rightarrow> None | Some i \<Rightarrow> if i \<noteq> 0 then Some i else None))"

definition by_numeric_id :: "builtins \<Rightarrow> server \<Rightarrow> odoo_client \<Rightarrow> string \<Rightarrow> int option io" where
  \<comment> \<open>block 1, \<^verbatim>\<open>ID num\<close>\<open>e\<close>\<^verbatim>\<open>rico\<close>\<close>
  "by_numeric_id b srv c value =
     (if isdigit value then
        io_bind (io_lift (int_str b value)) (\<lambda>n.
        io_bind (client_search srv c ''product.category'' [(''id'', ''='', VInt n)] 1) (\<lambda>ids.
        io_return (case ids of [] \<Rightarrow> None | i # _ \<Rightarrow> Some i)))
      else io_return None)"

definition by_xml_id :: "server \<Rightarrow> odoo_client \<Rightarrow> string \<Rightarrow> int option io" where
  \<comment> \<open>block 2, \<^verbatim>\<open>XML-ID completo module.name\<close>\<close>
  "by_xml_id srv c value =
     (if has_dot value then
        (let (module, name) = split_dot value;
             domain = [(''module'', ''='', VStr module), (''name'', ''='', VStr name),
                       (''model'', ''='', VStr ''product.category'')]
         in io_bind (client_search srv c ''ir.model.data'' domain 1) (\<lambda>ids.
            if ids \<noteq> [] then
              io_bind (client_read srv c ''ir.model.data'' ids [''res_id'']) (\<lambda>recs.
              io_return (bound_id recs))
            else io_return None))
      else io_return None)"

definition by_external_id :: "server \<Rightarrow> odoo_client \<Rightarrow> string \<Rightarrow> int option io" where
  \<comment> \<open>block 3, \<^verbatim>\<open>Solo external_id\<close>\<close>
  "by_external_id srv c value =
     io_bind (client_search srv c ''ir.model.data''
                [(''name'', ''='', VStr value), (''model'', ''='', VStr ''product.category'')] 1) (\<lambda>ids.
     if ids \<noteq> [] then
       io_bind (client_read srv c ''ir.model.data'' ids [''res_id'']) (\<lambda>recs.
       io_return (bound_id recs))
     else io_return None)"

definition by_name :: "server \<Rightarrow> odoo_client \<Rightarrow> string \<Rightarrow> int option io" where
  \<comment> \<open>block 4, \<^verbatim>\<open>Nombre de categor\<close>\<open>i\<close>\<^verbatim>\<open>a\<close>, and the final \<^verbatim>\<open>return None\<close>\<close>
  "by_name srv c value =
     io_bind (client_search srv c ''product.category'' [(''name'', ''='', VStr value)] 1) (\<lambda>ids.
     io_return (case ids of [] \<Rightarrow> None | i # _ \<Rightarrow> Some i))"

record importer =
  client :: odoo_client
  base_dir :: string

definition ensure_category :: "builtins \<Rightarrow> server \<Rightarrow> importer \<Rightarrow> cell \<Rightarrow> int option io" where
  "ensure_category b srv self v =
     (let value = safe_str b v
      in if value = [] then io_return None
         else or_else (by_numeric_id b srv (client self) value)
             (or_else (by_xml_id srv (client self) value)
             (or_else (by_external_id srv (client self) value)
                      (by_name srv (client self) value))))"

type_synonym row = "string \<rightharpoonup> cell"

definition row_get :: "row \<Rightarrow> string \<Rightarrow> cell" where
  \<comment> \<open>\<^verbatim>\<open>row.get(key)\<close>\<close>
  "row_get row key = (case row key of None \<Rightarrow> CNone | Some v \<Rightarrow> v)"

definition set_if :: "bool \<Rightarrow> string \<Rightarrow> pyval \<Rightarrow> vals \<Rightarrow> vals" where
  \<comment> \<open>\<^verbatim>\<open>if cond: vals[key] = x\<close>\<close>
  "set_if cond key x vs = (if cond then vs(key \<mapsto> x) else vs)"

definition build_vals :: "builtins \<Rightarrow> row \<Rightarrow> int option \<Rightarrow> fault + vals" where
  \<comment> \<open>the part of \<^verbatim>\<open>import_row\<close> that reads the cells and fills \<^verbatim>\<open>vals\<close>\<close>
  "build_vals b row categ_id =
     (let default_code = safe_str b (row_get row ''default_code'');
          name = safe_str b (row_get row ''name'');
          supplier_code = safe_str b (row_get row ''supplier_code'');
          brand_name = safe_str b (row_get row ''brand'');
          barcode0 = safe_str b (row_get row ''barcode'');
          barcode = (if lower barcode0 = ''nan'' then [] else barcode0)
      in case to_float b (row_get row ''list_price'') of
           Inl e \<Rightarrow> Inl e
         | Inr list_price \<Rightarrow>
          (case to_float b (row_get row ''standard_price'') of
             Inl e \<Rightarrow> Inl e
           | Inr standard_price \<Rightarrow>
              (let available_in_pos = to_bool b (row_get row ''available_in_pos'');
                   purchase_ok = to_bool b (row_get row ''purchase_ok'');
                   sale_ok = to_bool b (row_get row ''sale_ok'');
                   is_storable_flag = to_bool b (row_get row ''is_storable'');
                   vs = Map.empty;
                   vs = set_if (name \<noteq> []) ''name'' (VStr name) vs;
                   vs = set_if (default_code \<noteq> []) ''default_code'' (VStr default_code) vs;
                   vs = set_if (barcode \<noteq> []) ''barcode'' (VStr barcode) vs;
                   vs = set_if (float_truthy list_price) ''list_price'' (VFloat list_price) vs;
                   vs = set_if (float_truthy standard_price) ''standard_price''
                          (VFloat standard_price) vs;
                   vs = set_if (supplier_code \<noteq> []) ''supplier_code'' (VStr supplier_code) vs;
                   vs = set_if (brand_name \<noteq> []) ''brand'' (VStr brand_name) vs;
                   vs = vs(''available_in_pos'' \<mapsto> VBool available_in_pos);
                   vs = vs(''purchase_ok'' \<mapsto> VBool purchase_ok);
                   vs = vs(''sale_ok'' \<mapsto> VBool sale_ok);
                   vs = vs(''is_storable'' \<mapsto> VBool is_storable_flag)
               in Inr (case categ_id of
                         None \<Rightarrow> vs
                       | Some i \<Rightarrow> set_if (i \<noteq> 0) ''categ_id'' (VInt i) vs))))"

definition skip_label :: string where
  \<comment> \<open>the text returned for a row without name and code; U+00F3 is the o with an acute accent\<close>
  "skip_label = ''(sin nombre ni c'' @ [CHR 0xF3] @ ''digo)''"

definition import_row :: "builtins \<Rightarrow> server \<Rightarrow> importer \<Rightarrow> row \<Rightarrow> string io" where
  "import_row b srv self row =
     (let default_code = safe_str b (row_get row ''default_code'');
          name = safe_str b (row_get row ''name'')
      in if name = [] \<and> default_code = [] then io_return skip_label
         else
          (let category_value =
                 (if ''categ_id/id'' \<in> dom row then safe_str b (row_get row ''categ_id/id'')
                  else safe_str b (row_get row ''categoria de producto / external id''))
           in io_bind (ensure_category b srv self (CStr category_value)) (\<lambda>categ_id.
              io_bind (io_lift (build_vals b row categ_id)) (\<lambda>vs.
             (let search = (if default_code \<noteq> [] then [(''default_code'', ''='', VStr default_code)]
                            else [(''name'', ''='', VStr name)])
              in io_bind (client_search srv (client self) ''product.template'' search 1) (\<lambda>ids.
                 case ids of
                   i # _ \<Rightarrow>
                     io_bind (client_write srv (client self) ''product.template'' [i] vs) (\<lambda>_.
                     io_return (''update: '' @ or_str default_code name))
                 | [] \<Rightarrow>
                     io_bind (client_create srv (client self) ''product.template'' vs) (\<lambda>_.
                     io_return (''create: '' @ or_str default_code name))))))))"

subsection \<open>Workers\<close>

definition get_thread_importer ::
  "server \<Rightarrow> string \<Rightarrow> importer option \<Rightarrow> trace \<Rightarrow> (fault + importer) \<times> importer option \<times> trace" where
  \<comment> \<open>the second component is the thread's \<^verbatim>\<open>_thread_local.importer\<close>, \<open>None\<close> while unset\<close>
  "get_thread_importer srv bdir loc tr =
     (case loc of
        Some imp \<Rightarrow> (Inr imp, loc, tr)
      | None \<Rightarrow>
         (case OdooClient srv tr of
            (Inl e, tr') \<Rightarrow> (Inl e, None, tr')
          | (Inr c, tr') \<Rightarrow>
              (let imp = \<lparr>client = c, base_dir = bdir\<rparr> in (Inr imp, Some imp, tr'))))"

type_synonym task = "nat \<times> row \<times> string \<times> bool"
type_synonym result = "nat \<times> bool \<times> string"

definition error_msg :: "builtins \<Rightarrow> row \<Rightarrow> fault \<Rightarrow> string" where
  \<comment> \<open>the message built by the \<^verbatim>\<open>except\<close> branch of \<^verbatim>\<open>worker_task\<close>\<close>
  "error_msg b row_dict e =
     (let dc = safe_str b (row_get row_dict ''default_code'');
          name = safe_str b (row_get row_dict ''name'')
      in ''ERROR en '' @ or_str dc (or_str name ''(sin identificador)'') @ '': '' @
         (case e of Fault text \<Rightarrow> text))"

text \<open>
  \<^verbatim>\<open>worker_task\<close> hands \<^verbatim>\<open>import_row\<close> the row as \<^verbatim>\<open>pd.Series(row_dict)\<close>, while its
  \<^verbatim>\<open>except\<close> branch reads the dict itself. pandas gives the values of a Series one dtype:
  \<^verbatim>\<open>object\<close> as soon as one value is a string, or a boolean next to anything else, and the
  values stay as they are; \<^verbatim>\<open>bool\<close> or \<^verbatim>\<open>int64\<close> when all values are booleans or all are
  integers, which reads the same through \<^verbatim>\<open>str\<close>; and \<^verbatim>\<open>float64\<close> when the values are
  numbers or \<^verbatim>\<open>None\<close> with a float among them, or integers with \<^verbatim>\<open>None\<close>: then every
  integer becomes a float and every \<^verbatim>\<open>None\<close> becomes \<^verbatim>\<open>nan\<close>.
\<close>

datatype dtype = DObject | DBool | DInt64 | DFloat64

definition is_str :: "cell \<Rightarrow> bool" where
  "is_str v = (case v of CStr s \<Rightarrow> True | _ \<Rightarrow> False)"

definition is_bool :: "cell \<Rightarrow> bool" where
  "is_bool v = (case v of CBool x \<Rightarrow> True | _ \<Rightarrow> False)"

definition is_int :: "cell \<Rightarrow> bool" where
  "is_int v = (case v of CInt i \<Rightarrow> True | _ \<Rightarrow> False)"

definition is_float :: "cell \<Rightarrow> bool" where
  "is_float v = (case v of CFloat f \<Rightarrow> True | _ \<Rightarrow> False)"

definition series_dtype :: "row \<Rightarrow> dtype" where
  \<comment> \<open>the dtype that pandas infers for the values of the dict\<close>
  "series_dtype d =
     (if \<exists>v \<in> ran d. is_str v then DObject
      else if \<exists>v \<in> ran d. is_bool v then (if \<forall>v \<in> ran d. is_bool v then DBool else DObject)
      else if \<exists>v \<in> ran d. is_float v then DFloat64
      else if \<exists>v \<in> ran d. is_int v then (if CNone \<in> ran d then DFloat64 else DInt64)
      else DObject)"

definition to_float64 :: "builtins \<Rightarrow> cell \<Rightarrow> cell" where
  \<comment> \<open>a number or \<^verbatim>\<open>None\<close> stored in a \<^verbatim>\<open>float64\<close> Series\<close>
  "to_float64 b v = (case v of
       CNone \<Rightarrow> CFloat NaN
     | CInt i \<Rightarrow> CFloat (float_int b i)
     | _ \<Rightarrow> v)"

definition pd_series :: "builtins \<Rightarrow> row \<Rightarrow> row" where
  \<comment> \<open>\<^verbatim>\<open>pd.Series(row_dict)\<close>, read through \<^verbatim>\<open>row.get\<close> and \<^verbatim>\<open>in\<close>\<close>
  "pd_series b row_dict =
     (if series_dtype row_dict = DFloat64 then (\<lambda>key. map_option (to_float64 b) (row_dict key))
      else row_dict)"

definition worker_task ::
  "builtins \<Rightarrow> server \<Rightarrow> task \<Rightarrow> importer option \<Rightarrow> trace \<Rightarrow> result \<times> importer option \<times> trace" where
  "worker_task b srv args loc tr =
     (case args of (row_index, row_dict, bdir, dry_run) \<Rightarrow>
       (let row = pd_series b row_dict
        in if dry_run then ((row_index, True, ''(dry-run)''), loc, tr)
           else
            (case get_thread_importer srv bdir loc tr of
               (Inl e, loc', tr') \<Rightarrow> ((row_index, False, error_msg b row_dict e), loc', tr')
             | (Inr imp, loc', tr') \<Rightarrow>
                (case import_row b srv imp row tr' of
                   (Inl e, tr'') \<Rightarrow> ((row_index, False, error_msg b row_dict e), loc', tr'')
                 | (Inr label, tr'') \<Rightarrow> ((row_index, True, label), loc', tr'')))))"

subsection \<open>The pool and the reporting loop\<close>

text \<open>
  The pool runs the tasks on its threads in some order. A schedule lists, in the order in
  which the rows take effect on the server, the position of the task and the thread that
  runs it; each row is run in one piece. \<^verbatim>\<open>executor.map\<close> hands the results back by
  position in the task list, whatever the order of completion.
\<close>

record pool =
  locals :: "nat \<Rightarrow> importer option"
  calls :: trace
  finished :: "nat \<rightharpoonup> result"

definition pool0 :: "trace \<Rightarrow> pool" where
  "pool0 tr = \<lparr>locals = (\<lambda>t. None), calls = tr, finished = Map.empty\<rparr>"

fun run_schedule :: "builtins \<Rightarrow> server \<Rightarrow> task list \<Rightarrow> (nat \<times> nat) list \<Rightarrow> pool \<Rightarrow> pool" where
  "run_schedule b srv tasks [] st = st"
| "run_schedule b srv tasks ((pos, thread) # sched) st =
     (if pos < length tasks then
        (case worker_task b srv (tasks ! pos) (locals st thread) (calls st) of
           (res, loc', tr') \<Rightarrow>
             run_schedule b srv tasks sched
               \<lparr>locals = (locals st)(thread := loc'), calls = tr',
                finished = (finished st)(pos \<mapsto> res)\<rparr>)
      else run_schedule b srv tasks sched st)"

definition executor_map ::
  "builtins \<Rightarrow> server \<Rightarrow> task list \<Rightarrow> (nat \<times> nat) list \<Rightarrow> trace \<Rightarrow> result list option \<times> pool" where
  \<comment> \<open>\<open>None\<close> when some task never ran, so that the iteration would not end\<close>
  "executor_map b srv tasks sched tr =
     (let st = run_schedule b srv tasks sched (pool0 tr)
      in (those (map (finished st) [0..<length tasks]), st))"

definition valid_schedule :: "nat \<Rightarrow> nat \<Rightarrow> (nat \<times> nat) list \<Rightarrow> bool" where
  \<comment> \<open>every one of the \<open>n\<close> tasks runs once, on one of the \<open>workers\<close> threads\<close>
  "valid_schedule workers n sched =
     (distinct (map fst sched) \<and> set (map fst sched) = {0..<n} \<and>
      list_all (\<lambda>(pos, thread). thread < workers) sched)"

datatype line = OkLine nat nat string | ErrLine nat nat string
  \<comment> \<open>\<^verbatim>\<open>[row_num/total] OK -> msg\<close> and \<^verbatim>\<open>[row_num/total] msg\<close>\<close>

fun line_row :: "line \<Rightarrow> nat" where
  "line_row (OkLine n t m) = n"
| "line_row (ErrLine n t m) = n"

record report =
  printed :: "line list"
  ok_count :: nat
  err_count :: nat

fun report_loop :: "nat \<Rightarrow> result list \<Rightarrow> report \<Rightarrow> report" where
  "report_loop total_rows [] r = r"
| "report_loop total_rows ((row_index, ok, msg) # results) r =
     (let row_num = row_index + 1
      in if ok
         then report_loop total_rows results
                (r\<lparr>ok_count := ok_count r + 1, printed := printed r @ [OkLine row_num total_rows msg]\<rparr>)
         else report_loop total_rows results
                (r\<lparr>err_count := err_count r + 1, printed := printed r @ [ErrLine row_num total_rows msg]\<rparr>))"

datatype outcome = NoRows | Finished report

definition main ::
  "builtins \<Rightarrow> server \<Rightarrow> row list \<Rightarrow> string \<Rightarrow> bool \<Rightarrow> (nat \<times> nat) list \<Rightarrow> trace
     \<Rightarrow> outcome option \<times> trace" where
  \<comment> \<open>\<^verbatim>\<open>main\<close> from the moment the sheet has been read into \<open>records\<close>;
      \<open>NoRows\<close> is the exit on an empty sheet\<close>
  "main b srv records bdir dry_run sched tr =
     (let total_rows = length records
      in if total_rows = 0 then (Some NoRows, tr)
         else
          (let tasks = map (\<lambda>idx. (idx, records ! idx, bdir, dry_run)) [0..<total_rows];
               r0 = \<lparr>printed = [], ok_count = 0, err_count = 0\<rparr>
           in case executor_map b srv tasks sched tr of
                (None, st) \<Rightarrow> (None, calls st)
              | (Some results, st) \<Rightarrow> (Some (Finished (report_loop total_rows results r0)), calls st)))"

subsection \<open>A reference instance for closed examples\<close>

text \<open>
  The theorems below hold for every instance of the built-ins and for every server. The
  closed examples need one of each. \<open>ref_builtins\<close> follows CPython on strings of code
  points below U+0100: \<^verbatim>\<open>int\<close> on strings of the digits 0-9 (the only tokens that pass
  \<^verbatim>\<open>isdigit\<close> and that \<^verbatim>\<open>int\<close> accepts), \<^verbatim>\<open>float\<close> on \<^verbatim>\<open>nan\<close>, \<^verbatim>\<open>inf\<close>,
  \<^verbatim>\<open>infinity\<close> and decimal numerals with sign, fraction, exponent and underscores between
  digits. A finite float is kept as the exact value of the numeral, which stands for the
  double nearest to it; numerals beyond the range of a double become \<^verbatim>\<open>inf\<close> or zero.
  \<^verbatim>\<open>str\<close> of a finite float is written in positional notation, which is CPython's output
  for values from 1e-4 up to 1e16 whose decimal expansion ends within 17 digits; other
  values are outside the reference instance.
\<close>

definition digit_val :: "char \<Rightarrow> nat" where
  "digit_val c = length (takeWhile (\<lambda>d. d \<noteq> c) ''0123456789'')"

definition is_decimal :: "string \<Rightarrow> bool" where
  "is_decimal s = (s \<noteq> [] \<and> list_all (\<lambda>c. c \<in> set ''0123456789'') s)"

definition nat_of_digits :: "string \<Rightarrow> nat" where
  "nat_of_digits s = foldl (\<lambda>a c. 10 * a + digit_val c) 0 s"

definition quoted :: "string \<Rightarrow> string" where
  \<comment> \<open>\<^verbatim>\<open>repr(s)\<close> of a string without quote or escape characters\<close>
  "quoted s = [CHR 0x27] @ s @ [CHR 0x27]"

definition ref_int :: "string \<Rightarrow> fault + int" where
  "ref_int s = (if is_decimal s then Inr (int (nat_of_digits s))
                else Inl (Fault (''invalid literal for int() with base 10: '' @ quoted s)))"

fun underscores_ok :: "char \<Rightarrow> string \<Rightarrow> bool" where
  \<comment> \<open>every underscore stands between two digits; the first argument is the character before\<close>
  "underscores_ok prev [] = True"
| "underscores_ok prev (c # cs) =
     (if c = CHR ''_''
      then prev \<in> set ''0123456789'' \<and> (case cs of [] \<Rightarrow> False | n # _ \<Rightarrow> n \<in> set ''0123456789'') \<and>
           underscores_ok c cs
      else underscores_ok c cs)"

definition ref_mantissa :: "string \<Rightarrow> rat option" where
  \<comment> \<open>digits, digits.digits, digits. and .digits\<close>
  "ref_mantissa s =
     (let ipart = takeWhile (\<lambda>c. c \<noteq> CHR ''.'') s;
          rest = dropWhile (\<lambda>c. c \<noteq> CHR ''.'') s;
          fpart = drop 1 rest
      in if (ipart = [] \<and> fpart = []) \<or> \<not> list_all (\<lambda>c. c \<in> set ''0123456789'') (ipart @ fpart)
         then None
         else Some (of_nat (nat_of_digits (ipart @ fpart)) / 10 ^ length fpart))"

definition ref_exponent :: "string \<Rightarrow> int option" where
  \<comment> \<open>the part after \<^verbatim>\<open>e\<close>: an optional sign and digits\<close>
  "ref_exponent s =
     (let ds = (if take 1 s = ''-'' \<or> take 1 s = ''+'' then drop 1 s else s)
      in if is_decimal ds
         then Some (if take 1 s = ''-'' then - int (nat_of_digits ds) else int (nat_of_digits ds))
         else None)"

definition ref_unsigned :: "string \<Rightarrow> rat option" where
  \<comment> \<open>mantissa, then optionally \<^verbatim>\<open>e\<close> and an exponent; the string is in lower case\<close>
  "ref_unsigned s =
     (let mant = takeWhile (\<lambda>c. c \<noteq> CHR ''e'') s;
          rest = dropWhile (\<lambda>c. c \<noteq> CHR ''e'') s
      in case ref_mantissa mant of
           None \<Rightarrow> None
         | Some m \<Rightarrow>
            if rest = [] then Some m
            else (case ref_exponent (drop 1 rest) of
                    None \<Rightarrow> None
                  | Some e \<Rightarrow> Some (if 0 \<le> e then m * 10 ^ nat e else m / 10 ^ nat (- e))))"

definition ref_round :: "bool \<Rightarrow> rat \<Rightarrow> pyfloat" where
  \<comment> \<open>the float of a numeral of absolute value \<open>r\<close>: at or above \<open>2^1024 - 2^970\<close> the
      nearest double is infinite, at or below \<open>2^-1075\<close> it is zero\<close>
  "ref_round neg r =
     (if 2 ^ 1024 - 2 ^ 970 \<le> r then (if neg then NegInf else PosInf)
      else if r \<le> 1 / 2 ^ 1075 then (if neg then NegZero else Finite 0)
      else Finite (if neg then - r else r))"

definition ref_float :: "string \<Rightarrow> fault + pyfloat" where
  "ref_float s =
     (let t = lower (strip s);
          neg = (take 1 t = ''-'');
          u = (if take 1 t = ''-'' \<or> take 1 t = ''+'' then drop 1 t else t)
      in if \<not> underscores_ok (CHR '' '') t
         then Inl (Fault (''could not convert string to float: '' @ quoted s))
         else if u = ''nan'' then Inr NaN
         else if u = ''inf'' \<or> u = ''infinity'' then Inr (if neg then NegInf else PosInf)
         else case ref_unsigned (filter (\<lambda>c. c \<noteq> CHR ''_'') u) of
                None \<Rightarrow> Inl (Fault (''could not convert string to float: '' @ quoted s))
              | Some r \<Rightarrow> Inr (ref_round neg r))"

fun str_nat :: "nat \<Rightarrow> string" where
  "str_nat n = (if n < 10 then [''0123456789'' ! n]
                else str_nat (n div 10) @ [''0123456789'' ! (n mod 10)])"

declare str_nat.simps [simp del]

definition ref_str_int :: "int \<Rightarrow> string" where
  "ref_str_int i = (if i < 0 then ''-'' @ str_nat (nat (- i)) else str_nat (nat i))"

fun frac_digits :: "nat \<Rightarrow> rat \<Rightarrow> string" where
  \<comment> \<open>the first digits after the point of a number between 0 and 1, as far as they go\<close>
  "frac_digits 0 r = []"
| "frac_digits (Suc n) r =
     (if r = 0 then []
      else (''0123456789'' ! nat \<lfloor>10 * r\<rfloor>) # frac_digits n (10 * r - of_int \<lfloor>10 * r\<rfloor>))"

definition ref_str_float :: "pyfloat \<Rightarrow> string" where
  "ref_str_float f = (case f of
       NaN \<Rightarrow> ''nan'' | PosInf \<Rightarrow> ''inf'' | NegInf \<Rightarrow> ''-inf'' | NegZero \<Rightarrow> ''-0.0''
     | Finite r \<Rightarrow>
        (let a = \<bar>r\<bar>;
             digits = frac_digits 17 (a - of_int \<lfloor>a\<rfloor>)
         in (if r < 0 then ''-'' else []) @ str_nat (nat \<lfloor>a\<rfloor>) @ ''.'' @
            (if digits = [] then ''0'' else digits)))"

definition ref_builtins :: builtins where
  "ref_builtins = \<lparr>int_str = ref_int, float_str = ref_float,
                    str_int = ref_str_int, str_float = ref_str_float,
                    float_int = (\<lambda>i. Finite (of_int i))\<rparr>"

text \<open>
  \<open>table_server\<close> authenticates as user \<open>u\<close>, answers a search from a table of
  (model, domain) pairs and with no id beyond it, answers every read with \<open>recs\<close>, every
  write with \<^verbatim>\<open>True\<close> and every create with \<open>created\<close>.
\<close>

definition table_server ::
  "int \<Rightarrow> ((string \<times> domain) \<times> int list) list \<Rightarrow> (string \<rightharpoonup> int) list \<Rightarrow> fault + int \<Rightarrow> server" where
  "table_server u found recs created =
     \<lparr>rpc_authenticate = (\<lambda>tr. Inr u),
      rpc_search = (\<lambda>tr v model domain limit.
         case map_of found (model, domain) of None \<Rightarrow> Inr [] | Some ids \<Rightarrow> Inr ids),
      rpc_create = (\<lambda>tr v model vs. created),
      rpc_write = (\<lambda>tr v model ids vs. Inr True),
      rpc_read = (\<lambda>tr v model ids fnames. Inr recs)\<rparr>"

subsection \<open>Notions used in the statements\<close>

definition xml_domain :: "string \<Rightarrow> domain" where
  "xml_domain value = [(''module'', ''='', VStr (fst (split_dot value))),
                       (''name'', ''='', VStr (snd (split_dot value))),
                       (''model'', ''='', VStr ''product.category'')]"

definition ext_domain :: "string \<Rightarrow> domain" where
  "ext_domain value = [(''name'', ''='', VStr value), (''model'', ''='', VStr ''product.category'')]"

definition reads_bound :: "server \<Rightarrow> bool" where
  \<comment> \<open>every registry record that the server returns carries a bound id\<close>
  "reads_bound srv =
     (\<forall>tr u ids recs. rpc_read srv tr u ''ir.model.data'' ids [''res_id''] = Inr recs
        \<longrightarrow> bound_id recs \<noteq> None)"

definition to_line :: "nat \<Rightarrow> result \<Rightarrow> line" where
  \<comment> \<open>the line that the reporting loop prints for one result\<close>
  "to_line total_rows res =
     (case res of (row_index, ok, msg) \<Rightarrow>
        if ok then OkLine (row_index + 1) total_rows msg else ErrLine (row_index + 1) total_rows msg)"

definition tasks_of :: "row list \<Rightarrow> string \<Rightarrow> bool \<Rightarrow> task list" where
  \<comment> \<open>the task list that \<^verbatim>\<open>main\<close> builds from the records\<close>
  "tasks_of records bdir dry_run =
     map (\<lambda>idx. (idx, records ! idx, bdir, dry_run)) [0..<length records]"

definition demo_server :: server where
  \<comment> \<open>user 2; category 5 exists; no product, no registry entry; a create returns id 11\<close>
  "demo_server =
     table_server 2 [((''product.category'', [(''id'', ''='', VInt 5)]), [5])] [] (Inr 11)"

definition demo_importer :: importer where
  "demo_importer = \<lparr>client = \<lparr>uid = 2\<rparr>, base_dir = []\<rparr>"

definition demo_rows :: "row list" where
  \<comment> \<open>a product row and a row whose cells are all blank\<close>
  "demo_rows =
     [[''default_code'' \<mapsto> CStr ''SKU1'', ''name'' \<mapsto> CStr ''Widget'',
       ''categ_id/id'' \<mapsto> CStr ''5'', ''list_price'' \<mapsto> CStr ''10,50''],
      [''default_code'' \<mapsto> CFloat NaN, ''name'' \<mapsto> CFloat NaN]]"

definition parsed_price :: "builtins \<Rightarrow> cell \<Rightarrow> pyfloat" where
  \<comment> \<open>the number that \<^verbatim>\<open>_to_float\<close> returns\<close>
  "parsed_price b v =
     (if v = CNone \<or> v = CStr [] then Finite 0
      else case float_str b (replace_comma (py_str b v)) of Inl e \<Rightarrow> Finite 0 | Inr f \<Rightarrow> f)"

definition category_value :: "builtins \<Rightarrow> row \<Rightarrow> string" where
  \<comment> \<open>the category token of a row: the first of the two column names that is present\<close>
  "category_value b row =
     (if ''categ_id/id'' \<in> dom row then safe_str b (row_get row ''categ_id/id'')
      else safe_str b (row_get row ''categoria de producto / external id''))"

definition row_code :: "builtins \<Rightarrow> row \<Rightarrow> string" where
  "row_code b row = safe_str b (row_get row ''default_code'')"

definition row_name :: "builtins \<Rightarrow> row \<Rightarrow> string" where
  "row_name b row = safe_str b (row_get row ''name'')"

definition natural_key :: "builtins \<Rightarrow> row \<Rightarrow> domain" where
  \<comment> \<open>the search domain of the natural-key lookup\<close>
  "natural_key b row =
     (if row_code b row \<noteq> [] then [(''default_code'', ''='', VStr (row_code b row))]
      else [(''name'', ''='', VStr (row_name b row))])"

definition demo_server_existing :: server where
  \<comment> \<open>as \<open>demo_server\<close>, with a product of code SKU1 stored under id 42\<close>
  "demo_server_existing =
     table_server 2
       [((''product.category'', [(''id'', ''='', VInt 5)]), [5]),
        ((''product.template'', [(''default_code'', ''='', VStr ''SKU1'')]), [42])] [] (Inr 11)"

definition demo_vals :: vals where
  \<comment> \<open>the value map of the first demo row once category 5 is resolved\<close>
  "demo_vals =
     [''name'' \<mapsto> VStr ''Widget'', ''default_code'' \<mapsto> VStr ''SKU1'',
      ''list_price'' \<mapsto> VFloat (Finite (21 / 2)),
      ''available_in_pos'' \<mapsto> VBool False, ''purchase_ok'' \<mapsto> VBool False,
      ''sale_ok'' \<mapsto> VBool False, ''is_storable'' \<mapsto> VBool False,
      ''categ_id'' \<mapsto> VInt 5]"



definition blank_row :: row where
  \<comment> \<open>a row whose code and name cells are blank, as pandas reads them\<close>
  "blank_row = [''default_code'' \<mapsto> CFloat NaN, ''name'' \<mapsto> CFloat NaN]"


fun is_search :: "rpc_call \<Rightarrow> bool" where
  "is_search (Search model domain limit) = True"
| "is_search other = False"

fun is_read :: "rpc_call \<Rightarrow> bool" where
  "is_read (Read model ids fnames) = True"
| "is_read other = False"

definition searches :: "trace \<Rightarrow> nat" where
  "searches cs = length (filter is_search cs)"

definition reads :: "trace \<Rightarrow> nat" where
  "reads cs = length (filter is_read cs)"

definition demo_server_stale :: server where
  \<comment> \<open>the registry knows \<open>base.cat\<close> under both lookups, but its record has no bound id\<close>
  "demo_server_stale =
     table_server 2
       [((''ir.model.data'', xml_domain ''base.cat''), [7]),
        ((''ir.model.data'', ext_domain ''base.cat''), [7])]
       [[''id'' \<mapsto> 7, ''res_id'' \<mapsto> 0]] (Inr 11)"

definition demo_server_registry :: server where
  \<comment> \<open>category 5 exists, the registry binds the external id \<open>5\<close> to category 9, and
      category 9 is named \<open>Widgets\<close>\<close>
  "demo_server_registry =
     table_server 2
       [((''product.category'', [(''id'', ''='', VInt 5)]), [5]),
        ((''ir.model.data'', ext_domain ''5''), [7]),
        ((''product.category'', [(''name'', ''='', VStr ''Widgets'')]), [9])]
       [[''id'' \<mapsto> 7, ''res_id'' \<mapsto> 9]] (Inr 11)"




definition demo_server_superscript :: server where
  \<comment> \<open>the only category, id 9, is named with the superscript two (U+00B2)\<close>
  "demo_server_superscript =
     table_server 2 [((''product.category'', [(''name'', ''='', VStr [CHR 0xB2])]), [9])] []
       (Inr 11)"

section \<open>Properties\<close>

subsection \<open>Sequencing\<close>

lemma io_bind_return [simp]: "io_bind (io_return x) f tr = f x tr"
  by (simp add: io_bind_def io_return_def)

lemma io_bind_lift_Inr [simp]: "io_bind (io_lift (Inr x)) f tr = f x tr"
  by (simp add: io_bind_def io_lift_def)

lemma io_bind_lift_Inl [simp]: "io_bind (io_lift (Inl e)) f tr = (Inl e, tr)"
  by (simp add: io_bind_def io_lift_def)

lemma io_bind_search:
  "io_bind (client_search srv c model domain limit) f tr =
     (case rpc_search srv tr (uid c) model domain limit of
        Inl e \<Rightarrow> (Inl e, tr @ [Search model domain limit])
      | Inr ids \<Rightarrow> f ids (tr @ [Search model domain limit]))"
  by (simp add: io_bind_def client_search_def split: sum.splits)

lemma io_bind_read:
  "io_bind (client_read srv c model ids fnames) f tr =
     (case rpc_read srv tr (uid c) model ids fnames of
        Inl e \<Rightarrow> (Inl e, tr @ [Read model ids fnames])
      | Inr recs \<Rightarrow> f recs (tr @ [Read model ids fnames]))"
  by (simp add: io_bind_def client_read_def split: sum.splits)

lemma io_bind_write:
  "io_bind (client_write srv c model ids vs) f tr =
     (case rpc_write srv tr (uid c) model ids vs of
        Inl e \<Rightarrow> (Inl e, tr @ [Write model ids vs])
      | Inr ok \<Rightarrow> f ok (tr @ [Write model ids vs]))"
  by (simp add: io_bind_def client_write_def split: sum.splits)

lemma io_bind_create:
  "io_bind (client_create srv c model vs) f tr =
     (case rpc_create srv tr (uid c) model vs of
        Inl e \<Rightarrow> (Inl e, tr @ [Create model vs])
      | Inr new_id \<Rightarrow> f new_id (tr @ [Create model vs]))"
  by (simp add: io_bind_def client_create_def split: sum.splits)

lemma or_else_cases:
  "or_else m k tr =
     (case m tr of
        (Inl e, tr1) \<Rightarrow> (Inl e, tr1)
      | (Inr (Some i), tr1) \<Rightarrow> (Inr (Some i), tr1)
      | (Inr None, tr1) \<Rightarrow> k tr1)"
  by (simp add: or_else_def io_bind_def io_return_def split: prod.splits sum.splits option.splits)

subsection \<open>The four blocks of the category resolver\<close>



lemma isdigit_no_dot: "isdigit s \<Longrightarrow> \<not> has_dot s"
proof
  assume d: "isdigit s" and h: "has_dot s"
  from h have "CHR ''.'' \<in> set s" by (simp add: has_dot_def)
  with d have "CHR ''.'' \<in> set digit_chars" by (simp add: isdigit_def list_all_iff)
  then show False by (simp add: digit_chars_def)
qed

lemma by_numeric_id_eq:
  "by_numeric_id b srv c value tr =
     (if isdigit value then
        (case int_str b value of
           Inl e \<Rightarrow> (Inl e, tr)
         | Inr n \<Rightarrow>
            (case rpc_search srv tr (uid c) ''product.category'' [(''id'', ''='', VInt n)] 1 of
               Inl e \<Rightarrow> (Inl e, tr @ [Search ''product.category'' [(''id'', ''='', VInt n)] 1])
             | Inr ids \<Rightarrow> (Inr (case ids of [] \<Rightarrow> None | i # _ \<Rightarrow> Some i),
                           tr @ [Search ''product.category'' [(''id'', ''='', VInt n)] 1])))
      else (Inr None, tr))"
  by (simp add: by_numeric_id_def io_bind_search io_return_def split: sum.split)



lemma by_xml_id_eq:
  "by_xml_id srv c value tr =
     (if has_dot value then
        (case rpc_search srv tr (uid c) ''ir.model.data'' (xml_domain value) 1 of
           Inl e \<Rightarrow> (Inl e, tr @ [Search ''ir.model.data'' (xml_domain value) 1])
         | Inr ids \<Rightarrow>
            if ids \<noteq> [] then
              (case rpc_read srv (tr @ [Search ''ir.model.data'' (xml_domain value) 1]) (uid c)
                      ''ir.model.data'' ids [''res_id''] of
                 Inl e \<Rightarrow> (Inl e, tr @ [Search ''ir.model.data'' (xml_domain value) 1,
                                        Read ''ir.model.data'' ids [''res_id'']])
               | Inr recs \<Rightarrow> (Inr (bound_id recs),
                              tr @ [Search ''ir.model.data'' (xml_domain value) 1,
                                    Read ''ir.model.data'' ids [''res_id'']]))
            else (Inr None, tr @ [Search ''ir.model.data'' (xml_domain value) 1]))
      else (Inr None, tr))"
  by (simp add: by_xml_id_def xml_domain_def io_bind_search io_bind_read io_return_def
           split: sum.split prod.split)

lemma by_external_id_eq:
  "by_external_id srv c value tr =
     (case rpc_search srv tr (uid c) ''ir.model.data'' (ext_domain value) 1 of
        Inl e \<Rightarrow> (Inl e, tr @ [Search ''ir.model.data'' (ext_domain value) 1])
      | Inr ids \<Rightarrow>
         if ids \<noteq> [] then
           (case rpc_read srv (tr @ [Search ''ir.model.data'' (ext_domain value) 1]) (uid c)
                   ''ir.model.data'' ids [''res_id''] of
              Inl e \<Rightarrow> (Inl e, tr @ [Search ''ir.model.data'' (ext_domain value) 1,
                                     Read ''ir.model.data'' ids [''res_id'']])
            | Inr recs \<Rightarrow> (Inr (bound_id recs),
                           tr @ [Search ''ir.model.data'' (ext_domain value) 1,
                                 Read ''ir.model.data'' ids [''res_id'']]))
         else (Inr None, tr @ [Search ''ir.model.data'' (ext_domain value) 1]))"
  by (simp add: by_external_id_def ext_domain_def io_bind_search io_bind_read io_return_def
           split: sum.split)

lemma by_name_eq:
  "by_name srv c value tr =
     (case rpc_search srv tr (uid c) ''product.category'' [(''name'', ''='', VStr value)] 1 of
        Inl e \<Rightarrow> (Inl e, tr @ [Search ''product.category'' [(''name'', ''='', VStr value)] 1])
      | Inr ids \<Rightarrow> (Inr (case ids of [] \<Rightarrow> None | i # _ \<Rightarrow> Some i),
                    tr @ [Search ''product.category'' [(''name'', ''='', VStr value)] 1]))"
  by (simp add: by_name_def io_bind_search io_return_def split: sum.split)

lemma ensure_category_blank:
  "safe_str b v = [] \<Longrightarrow> ensure_category b srv self v tr = (Inr None, tr)"
  by (simp add: ensure_category_def io_return_def)

lemma ensure_category_chain:
  "safe_str b v \<noteq> [] \<Longrightarrow>
   ensure_category b srv self v =
     or_else (by_numeric_id b srv (client self) (safe_str b v))
    (or_else (by_xml_id srv (client self) (safe_str b v))
    (or_else (by_external_id srv (client self) (safe_str b v))
             (by_name srv (client self) (safe_str b v))))"
  by (simp add: ensure_category_def Let_def)


text \<open>Calls added by each block.\<close>

lemma by_numeric_id_calls:
  "by_numeric_id b srv c value tr = (r, tr') \<Longrightarrow>
   \<exists>cs. tr' = tr @ cs \<and> length cs \<le> 1 \<and> (\<not> isdigit value \<longrightarrow> cs = [] \<and> r = Inr None)"
  by (auto simp: by_numeric_id_eq split: if_split_asm sum.split_asm)

lemma by_xml_id_calls:
  "by_xml_id srv c value tr = (r, tr') \<Longrightarrow>
   \<exists>cs. tr' = tr @ cs \<and> length cs \<le> 2 \<and> (\<not> has_dot value \<longrightarrow> cs = [] \<and> r = Inr None)"
  by (auto simp: by_xml_id_eq split: if_split_asm sum.split_asm)

lemma by_external_id_calls:
  "by_external_id srv c value tr = (r, tr') \<Longrightarrow> \<exists>cs. tr' = tr @ cs \<and> length cs \<le> 2"
  by (auto simp: by_external_id_eq split: if_split_asm sum.split_asm)

lemma by_name_calls:
  "by_name srv c value tr = (r, tr') \<Longrightarrow> \<exists>cs. tr' = tr @ cs \<and> length cs \<le> 1"
  by (auto simp: by_name_eq split: if_split_asm sum.split_asm)



subsection \<open>Workers and the pool\<close>

lemma worker_task_index: "fst (fst (worker_task b srv (i, row, bd, dr) loc tr)) = i"
  by (simp add: worker_task_def split: prod.split sum.split)

lemma worker_task_dry_run:
  "worker_task b srv (i, row, bd, True) loc tr = ((i, True, ''(dry-run)''), loc, tr)"
  by (simp add: worker_task_def)

lemma run_schedule_dom:
  "dom (finished (run_schedule b srv tasks sched st)) =
     dom (finished st) \<union> {p \<in> set (map fst sched). p < length tasks}"
proof (induction sched arbitrary: st)
  case Nil
  then show ?case by simp
next
  case (Cons a sched)
  obtain pos thread where a: "a = (pos, thread)" by (cases a)
  show ?case
  proof (cases "pos < length tasks")
    case True
    obtain res loc' tr' where w: "worker_task b srv (tasks ! pos) (locals st thread) (calls st) = (res, loc', tr')"
      by (metis prod_cases3)
    let ?st = "\<lparr>locals = (locals st)(thread := loc'), calls = tr',
                finished = (finished st)(pos \<mapsto> res)\<rparr>"
    have "run_schedule b srv tasks (a # sched) st = run_schedule b srv tasks sched ?st"
      using True by (simp add: a w)
    moreover have "dom (finished ?st) = insert pos (dom (finished st))"
      by simp
    ultimately have "dom (finished (run_schedule b srv tasks (a # sched) st)) =
        insert pos (dom (finished st)) \<union> {p \<in> set (map fst sched). p < length tasks}"
      by (simp only: Cons.IH)
    also have "\<dots> = dom (finished st) \<union> {p \<in> set (map fst (a # sched)). p < length tasks}"
      using True by (auto simp: a)
    finally show ?thesis .
  next
    case False
    have "run_schedule b srv tasks (a # sched) st = run_schedule b srv tasks sched st"
      using False by (simp add: a)
    then have "dom (finished (run_schedule b srv tasks (a # sched) st)) =
        dom (finished st) \<union> {p \<in> set (map fst sched). p < length tasks}"
      by (simp only: Cons.IH)
    also have "\<dots> = dom (finished st) \<union> {p \<in> set (map fst (a # sched)). p < length tasks}"
      using False by (auto simp: a)
    finally show ?thesis .
  qed
qed

lemma run_schedule_index:
  "(\<And>p res. finished st p = Some res \<Longrightarrow> fst res = fst (tasks ! p)) \<Longrightarrow>
   finished (run_schedule b srv tasks sched st) p = Some res \<Longrightarrow> fst res = fst (tasks ! p)"
proof (induction sched arbitrary: st)
  case Nil
  then show ?case by simp
next
  case (Cons a sched)
  obtain pos thread where a: "a = (pos, thread)" by (cases a)
  show ?case
  proof (cases "pos < length tasks")
    case True
    obtain i row bd dr where t: "tasks ! pos = (i, row, bd, dr)" by (metis prod_cases4)
    obtain r loc' tr' where w: "worker_task b srv (tasks ! pos) (locals st thread) (calls st) = (r, loc', tr')"
      by (metis prod_cases3)
    have fr: "fst r = fst (tasks ! pos)"
      using worker_task_index [of b srv i row bd dr "locals st thread" "calls st"] w t by simp
    let ?st = "\<lparr>locals = (locals st)(thread := loc'), calls = tr', finished = (finished st)(pos \<mapsto> r)\<rparr>"
    have inv: "\<And>q res. finished ?st q = Some res \<Longrightarrow> fst res = fst (tasks ! q)"
      using Cons.prems(1) fr by (auto split: if_split_asm)
    have "finished (run_schedule b srv tasks sched ?st) p = Some res"
      using Cons.prems(2) True by (simp add: a w)
    from Cons.IH [OF inv this] show ?thesis .
  next
    case False
    then have "finished (run_schedule b srv tasks sched st) p = Some res"
      using Cons.prems(2) by (simp add: a)
    from Cons.IH [OF Cons.prems(1) this] show ?thesis .
  qed
qed

lemma those_map_Some:
  "(\<And>x. x \<in> set xs \<Longrightarrow> f x \<noteq> None) \<Longrightarrow> those (map f xs) = Some (map (\<lambda>x. the (f x)) xs)"
  by (induction xs) (auto split: option.split)

lemma report_loop_printed:
  "printed (report_loop t rs r) = printed r @ map (to_line t) rs"
  by (induction t rs r rule: report_loop.induct) (simp_all add: to_line_def Let_def)

lemma report_loop_ok:
  "ok_count (report_loop t rs r) = ok_count r + length (filter (\<lambda>res. fst (snd res)) rs)"
  by (induction t rs r rule: report_loop.induct) (simp_all add: Let_def)

lemma report_loop_err:
  "err_count (report_loop t rs r) = err_count r + length (filter (\<lambda>res. \<not> fst (snd res)) rs)"
  by (induction t rs r rule: report_loop.induct) (simp_all add: Let_def)

lemma line_row_to_line: "line_row (to_line t res) = fst res + 1"
  by (cases res) (simp add: to_line_def)

lemma executor_map_total:
  assumes "valid_schedule workers (length tasks) sched"
  shows "\<exists>results. fst (executor_map b srv tasks sched tr) = Some results \<and>
           length results = length tasks \<and>
           (\<forall>p < length tasks. fst (results ! p) = fst (tasks ! p) \<and>
              finished (snd (executor_map b srv tasks sched tr)) p = Some (results ! p))"
proof -
  let ?st = "run_schedule b srv tasks sched (pool0 tr)"
  have d: "dom (finished ?st) = {0..<length tasks}"
    using assms by (auto simp: run_schedule_dom pool0_def valid_schedule_def)
  have ne: "\<And>x. x \<in> set [0..<length tasks] \<Longrightarrow> finished ?st x \<noteq> None"
  proof -
    fix x assume "x \<in> set [0..<length tasks]"
    then have "x \<in> dom (finished ?st)" by (simp only: d) simp
    then show "finished ?st x \<noteq> None" by blast
  qed
  let ?rs = "map (\<lambda>x. the (finished ?st x)) [0..<length tasks]"
  have th: "those (map (finished ?st) [0..<length tasks]) = Some ?rs"
    by (rule those_map_Some) (rule ne)
  have idx: "\<And>p. p < length tasks \<Longrightarrow> fst (?rs ! p) = fst (tasks ! p)"
  proof -
    fix p assume p: "p < length tasks"
    then obtain res where r: "finished ?st p = Some res" using ne [of p] by auto
    have "fst res = fst (tasks ! p)"
      by (rule run_schedule_index [OF _ r]) (simp add: pool0_def)
    then show "fst (?rs ! p) = fst (tasks ! p)" using p r by simp
  qed
  have fin: "\<And>p. p < length tasks \<Longrightarrow> finished ?st p = Some (?rs ! p)"
  proof -
    fix p assume p: "p < length tasks"
    then obtain res where r: "finished ?st p = Some res" using ne [of p] by auto
    have "?rs ! p = res" using p r by simp
    with r show "finished ?st p = Some (?rs ! p)" by (simp only:)
  qed
  have e: "executor_map b srv tasks sched tr = (Some ?rs, ?st)"
    using th by (simp add: executor_map_def Let_def)
  have len: "length ?rs = length tasks" by simp
  show ?thesis
    by (simp only: e fst_conv snd_conv) (use len idx fin in blast)
qed


lemma tasks_of_nth:
  "p < length records \<Longrightarrow> tasks_of records bdir dry_run ! p = (p, records ! p, bdir, dry_run)"
  by (simp add: tasks_of_def)

lemma length_tasks_of: "length (tasks_of records bdir dry_run) = length records"
  by (simp add: tasks_of_def)

lemma main_empty: "main b srv [] bdir dry_run sched tr = (Some NoRows, tr)"
  by (simp add: main_def)

lemma main_eq:
  "records \<noteq> [] \<Longrightarrow>
   main b srv records bdir dry_run sched tr =
     (case executor_map b srv (tasks_of records bdir dry_run) sched tr of
        (None, st) \<Rightarrow> (None, calls st)
      | (Some results, st) \<Rightarrow>
          (Some (Finished (report_loop (length records) results
                            \<lparr>printed = [], ok_count = 0, err_count = 0\<rparr>)), calls st))"
  by (simp add: main_def tasks_of_def Let_def)

lemma main_finishes:
  assumes v: "valid_schedule workers (length records) sched" and ne: "records \<noteq> []"
  shows "\<exists>results st.
           executor_map b srv (tasks_of records bdir dry_run) sched tr = (Some results, st) \<and>
           main b srv records bdir dry_run sched tr =
             (Some (Finished (report_loop (length records) results
                               \<lparr>printed = [], ok_count = 0, err_count = 0\<rparr>)), calls st) \<and>
           length results = length records \<and>
           (\<forall>p < length records. fst (results ! p) = p \<and> finished st p = Some (results ! p))"
proof -
  let ?tasks = "tasks_of records bdir dry_run"
  have v': "valid_schedule workers (length ?tasks) sched"
    using v by (simp add: length_tasks_of)
  obtain results where r: "fst (executor_map b srv ?tasks sched tr) = Some results"
    and len: "length results = length ?tasks"
    and idx: "\<forall>p < length ?tasks. fst (results ! p) = fst (?tasks ! p) \<and>
              finished (snd (executor_map b srv ?tasks sched tr)) p = Some (results ! p)"
    using executor_map_total [OF v', of b srv tr] by blast
  obtain st :: pool where e: "executor_map b srv ?tasks sched tr = (Some results, st)"
    using r by (cases "executor_map b srv ?tasks sched tr") simp
  have m: "main b srv records bdir dry_run sched tr =
             (Some (Finished (report_loop (length records) results
                               \<lparr>printed = [], ok_count = 0, err_count = 0\<rparr>)), calls st)"
    by (simp add: main_eq [OF ne] e)
  have i: "\<forall>p < length records. fst (results ! p) = p \<and> finished st p = Some (results ! p)"
    using idx e by (simp add: length_tasks_of tasks_of_nth)
  show ?thesis using e m len i by (simp add: length_tasks_of)
qed

lemma report_loop_tally:
  "ok_count (report_loop t rs r) + err_count (report_loop t rs r) =
     ok_count r + err_count r + length rs"
  using sum_length_filter_compl [of "\<lambda>res. fst (snd res)" rs]
  by (simp add: report_loop_ok report_loop_err)

lemma rows_in_order:
  assumes "length results = n" and "\<forall>p < n. fst (results ! p) = p"
  shows "map line_row (map (to_line t) results) = map Suc [0..<n]"
proof (rule nth_equalityI)
  show "length (map line_row (map (to_line t) results)) = length (map Suc [0..<n])"
    using assms by simp
next
  fix i assume "i < length (map line_row (map (to_line t) results))"
  then have i: "i < n" using assms by simp
  then show "map line_row (map (to_line t) results) ! i = map Suc [0..<n] ! i"
    using assms by (simp add: line_row_to_line)
qed

text \<open>
  Claim C1. Whatever the order in which the pool runs the rows, a batch of N rows ends with
  exactly N printed lines, one per row, whose row numbers are 1, 2, ..., N in this order, and
  the two counters add up to N. On an empty sheet nothing is printed.
\<close>

theorem batch_reports_every_row_in_order:
  assumes "valid_schedule workers (length records) sched"
  shows "\<exists>out tr'. main b srv records bdir dry_run sched tr = (Some out, tr') \<and>
           (case out of
              NoRows \<Rightarrow> records = []
            | Finished r \<Rightarrow>
                length (printed r) = length records \<and>
                map line_row (printed r) = map Suc [0..<length records] \<and>
                sorted_wrt (<) (map line_row (printed r)) \<and>
                ok_count r + err_count r = length records)"
proof (cases "records = []")
  case True
  then show ?thesis by (simp add: main_empty)
next
  case False
  obtain results and st :: pool where
    m: "main b srv records bdir dry_run sched tr =
          (Some (Finished (report_loop (length records) results
                            \<lparr>printed = [], ok_count = 0, err_count = 0\<rparr>)), calls st)"
    and len: "length results = length records"
    and idx: "\<forall>p < length records. fst (results ! p) = p \<and> finished st p = Some (results ! p)"
    using main_finishes [OF assms False, of b srv bdir dry_run tr] by blast
  let ?r = "report_loop (length records) results \<lparr>printed = [], ok_count = 0, err_count = 0\<rparr>"
  have p: "printed ?r = map (to_line (length records)) results"
    by (simp add: report_loop_printed)
  have rows: "map line_row (printed ?r) = map Suc [0..<length records]"
    unfolding p using len idx by (intro rows_in_order) simp_all
  have srt: "sorted_wrt (<) (map line_row (printed ?r))"
    unfolding rows by (simp add: map_Suc_upt del: upt_Suc)
  have tally: "ok_count ?r + err_count ?r = length records"
    using report_loop_tally [of "length records" results] len by simp
  have "length (printed ?r) = length records" using len by (simp add: p)
  then show ?thesis using m rows srt tally by simp
qed

theorem batch_reports_every_row_in_order_witness:
  "valid_schedule 2 (length demo_rows) [(1, 0), (0, 1)] \<and>
   (\<exists>out tr'. main ref_builtins demo_server demo_rows [] False [(1, 0), (0, 1)] [] = (Some out, tr') \<and>
      (case out of
         NoRows \<Rightarrow> demo_rows = []
       | Finished r \<Rightarrow>
           length (printed r) = length demo_rows \<and>
           map line_row (printed r) = map Suc [0..<length demo_rows] \<and>
           sorted_wrt (<) (map line_row (printed r)) \<and>
           ok_count r + err_count r = length demo_rows))"
proof -
  have v: "valid_schedule 2 (length demo_rows) [(1, 0), (0, 1)]"
    by (auto simp: valid_schedule_def demo_rows_def)
  from v batch_reports_every_row_in_order [OF v] show ?thesis by blast
qed

lemma run_schedule_dry_run:
  assumes "\<And>p. p < length tasks \<Longrightarrow> snd (snd (snd (tasks ! p)))"
  shows "calls (run_schedule b srv tasks sched st) = calls st \<and>
         locals (run_schedule b srv tasks sched st) = locals st"
proof (induction sched arbitrary: st)
  case Nil
  then show ?case by simp
next
  case (Cons a sched)
  obtain pos thread where a: "a = (pos, thread)" by (cases a)
  show ?case
  proof (cases "pos < length tasks")
    case True
    obtain i row bd dr where t: "tasks ! pos = (i, row, bd, dr)" by (metis prod_cases4)
    have dr using assms [OF True] t by simp
    then have w: "worker_task b srv (tasks ! pos) (locals st thread) (calls st) =
                    ((i, True, ''(dry-run)''), locals st thread, calls st)"
      by (simp add: t worker_task_dry_run)
    show ?thesis using True by (simp add: a w Cons.IH)
  next
    case False
    then show ?thesis by (simp add: a Cons.IH)
  qed
qed

lemma run_schedule_dry_results:
  assumes "\<And>p. p < length tasks \<Longrightarrow> snd (snd (snd (tasks ! p)))"
    and "\<And>p res. finished st p = Some res \<Longrightarrow> snd res = (True, ''(dry-run)'')"
  shows "finished (run_schedule b srv tasks sched st) p = Some res \<Longrightarrow> snd res = (True, ''(dry-run)'')"
  using assms(2)
proof (induction sched arbitrary: st)
  case Nil
  then show ?case by simp
next
  case (Cons a sched)
  obtain pos thread where a: "a = (pos, thread)" by (cases a)
  show ?case
  proof (cases "pos < length tasks")
    case True
    obtain i row bd dr where t: "tasks ! pos = (i, row, bd, dr)" by (metis prod_cases4)
    have dr using assms(1) [OF True] t by simp
    then have w: "worker_task b srv (tasks ! pos) (locals st thread) (calls st) =
                    ((i, True, ''(dry-run)''), locals st thread, calls st)"
      by (simp add: t worker_task_dry_run)
    let ?st = "\<lparr>locals = (locals st)(thread := locals st thread), calls = calls st,
                finished = (finished st)(pos \<mapsto> (i, True, ''(dry-run)''))\<rparr>"
    have inv: "\<And>q r. finished ?st q = Some r \<Longrightarrow> snd r = (True, ''(dry-run)'')"
      using Cons.prems(2) by (auto split: if_split_asm)
    have "finished (run_schedule b srv tasks sched ?st) p = Some res"
      using Cons.prems(1) True by (simp add: a w)
    from Cons.IH [OF this inv] show ?thesis .
  next
    case False
    then have "finished (run_schedule b srv tasks sched st) p = Some res"
      using Cons.prems(1) by (simp add: a)
    from Cons.IH [OF this Cons.prems(2)] show ?thesis .
  qed
qed

text \<open>
  Claim C8. In dry-run mode the worker returns the success \<open>(dry-run)\<close> for every row at
  once: the trace of remote calls and the thread's importer are unchanged, so no client is
  built and nothing is searched, read, written or created. A whole dry run leaves the trace
  as it was and prints every row as a success.
\<close>

theorem dry_run_issues_no_remote_call:
  "worker_task b srv (i, row, bdir, True) loc tr = ((i, True, ''(dry-run)''), loc, tr) \<and>
   (valid_schedule workers (length records) sched \<longrightarrow>
      (\<exists>out. main b srv records bdir True sched tr = (Some out, tr) \<and>
         (case out of
            NoRows \<Rightarrow> records = []
          | Finished r \<Rightarrow>
              printed r = map (\<lambda>p. OkLine (p + 1) (length records) ''(dry-run)'') [0..<length records] \<and>
              ok_count r = length records \<and> err_count r = 0)))"
proof (intro conjI impI)
  show "worker_task b srv (i, row, bdir, True) loc tr = ((i, True, ''(dry-run)''), loc, tr)"
    by (rule worker_task_dry_run)
next
  assume v: "valid_schedule workers (length records) sched"
  show "\<exists>out. main b srv records bdir True sched tr = (Some out, tr) \<and>
         (case out of
            NoRows \<Rightarrow> records = []
          | Finished r \<Rightarrow>
              printed r = map (\<lambda>p. OkLine (p + 1) (length records) ''(dry-run)'') [0..<length records] \<and>
              ok_count r = length records \<and> err_count r = 0)"
  proof (cases "records = []")
    case True
    then show ?thesis by (simp add: main_empty)
  next
    case False
    let ?tasks = "tasks_of records bdir True"
    obtain results and st :: pool where
      e: "executor_map b srv ?tasks sched tr = (Some results, st)"
      and m: "main b srv records bdir True sched tr =
            (Some (Finished (report_loop (length records) results
                              \<lparr>printed = [], ok_count = 0, err_count = 0\<rparr>)), calls st)"
      and len: "length results = length records"
      and idx: "\<forall>p < length records. fst (results ! p) = p \<and> finished st p = Some (results ! p)"
      using main_finishes [OF v False, of b srv bdir True tr] by blast
    have st: "st = run_schedule b srv ?tasks sched (pool0 tr)"
      using e by (simp add: executor_map_def Let_def)
    have dry: "\<And>p. p < length ?tasks \<Longrightarrow> snd (snd (snd (?tasks ! p)))"
      by (simp add: tasks_of_def)
    have c: "calls st = tr"
      using run_schedule_dry_run [of ?tasks b srv sched "pool0 tr", OF dry]
      by (simp add: st pool0_def)
    have res: "\<And>p. p < length records \<Longrightarrow> results ! p = (p, True, ''(dry-run)'')"
    proof -
      fix p assume p: "p < length records"
      then have f: "finished (run_schedule b srv ?tasks sched (pool0 tr)) p = Some (results ! p)"
        and i: "fst (results ! p) = p"
        using idx st by auto
      have "snd (results ! p) = (True, ''(dry-run)'')"
        by (rule run_schedule_dry_results [OF dry _ f]) (simp_all add: pool0_def)
      with i show "results ! p = (p, True, ''(dry-run)'')"
        by (metis prod.collapse)
    qed
    have rs: "results = map (\<lambda>p. (p, True, ''(dry-run)'')) [0..<length records]"
      by (rule nth_equalityI) (simp_all add: len res)
    let ?r = "report_loop (length records) results \<lparr>printed = [], ok_count = 0, err_count = 0\<rparr>"
    have p: "printed ?r = map (\<lambda>p. OkLine (p + 1) (length records) ''(dry-run)'') [0..<length records]"
      by (simp add: report_loop_printed rs to_line_def comp_def)
    have ok: "ok_count ?r = length records" and err: "err_count ?r = 0"
      by (simp_all add: report_loop_ok report_loop_err rs comp_def)
    show ?thesis using m c p ok err by simp
  qed
qed

theorem dry_run_issues_no_remote_call_witness:
  "valid_schedule 2 (length demo_rows) [(1, 0), (0, 1)] \<and>
   main ref_builtins demo_server demo_rows [] True [(1, 0), (0, 1)] [] =
     (Some (Finished \<lparr>printed = [OkLine 1 2 ''(dry-run)'', OkLine 2 2 ''(dry-run)''],
                     ok_count = 2, err_count = 0\<rparr>), [])"
proof -
  have v: "valid_schedule 2 (length demo_rows) [(1, 0), (0, 1)]"
    by (auto simp: valid_schedule_def demo_rows_def)
  have l: "length demo_rows = 2" by (simp add: demo_rows_def)
  have ne: "demo_rows \<noteq> []" by (simp add: demo_rows_def)
  obtain out where
    m: "main ref_builtins demo_server demo_rows [] True [(1, 0), (0, 1)] [] = (Some out, [])"
    and c: "case out of NoRows \<Rightarrow> demo_rows = []
            | Finished r \<Rightarrow>
              printed r = map (\<lambda>p. OkLine (p + 1) (length demo_rows) ''(dry-run)'') [0..<length demo_rows] \<and>
              ok_count r = length demo_rows \<and> err_count r = 0"
    using dry_run_issues_no_remote_call [of ref_builtins demo_server 0 "hd demo_rows" "[]" None "[]"
          2 demo_rows "[(1, 0), (0, 1)]"] v by blast
  show ?thesis
  proof (cases out)
    case NoRows
    then show ?thesis using c ne by simp
  next
    case (Finished r)
    then have "r = \<lparr>printed = [OkLine 1 2 ''(dry-run)'', OkLine 2 2 ''(dry-run)''],
                     ok_count = 2, err_count = 0\<rparr>"
      using c by (simp add: l upt_rec)
    then show ?thesis using v m Finished by simp
  qed
qed

subsection \<open>Conversions and the value map\<close>

lemma to_float_eq: "to_float b v = Inr (parsed_price b v)"
  by (simp add: to_float_def parsed_price_def try_except_def split: sum.split)

lemma set_if_False: "set_if False key x vs = vs"
  by (simp add: set_if_def)

lemma build_vals_eq:
  "build_vals b row categ_id =
     Inr (let vs = Map.empty;
              vs = set_if (row_name b row \<noteq> []) ''name'' (VStr (row_name b row)) vs;
              vs = set_if (row_code b row \<noteq> []) ''default_code'' (VStr (row_code b row)) vs;
              vs = set_if (safe_str b (row_get row ''barcode'') \<noteq> [] \<and>
                           lower (safe_str b (row_get row ''barcode'')) \<noteq> ''nan'')
                     ''barcode'' (VStr (safe_str b (row_get row ''barcode''))) vs;
              vs = set_if (float_truthy (parsed_price b (row_get row ''list_price'')))
                     ''list_price'' (VFloat (parsed_price b (row_get row ''list_price''))) vs;
              vs = set_if (float_truthy (parsed_price b (row_get row ''standard_price'')))
                     ''standard_price'' (VFloat (parsed_price b (row_get row ''standard_price''))) vs;
              vs = set_if (safe_str b (row_get row ''supplier_code'') \<noteq> [])
                     ''supplier_code'' (VStr (safe_str b (row_get row ''supplier_code''))) vs;
              vs = set_if (safe_str b (row_get row ''brand'') \<noteq> [])
                     ''brand'' (VStr (safe_str b (row_get row ''brand''))) vs;
              vs = vs(''available_in_pos'' \<mapsto> VBool (to_bool b (row_get row ''available_in_pos'')));
              vs = vs(''purchase_ok'' \<mapsto> VBool (to_bool b (row_get row ''purchase_ok'')));
              vs = vs(''sale_ok'' \<mapsto> VBool (to_bool b (row_get row ''sale_ok'')));
              vs = vs(''is_storable'' \<mapsto> VBool (to_bool b (row_get row ''is_storable'')))
          in case categ_id of None \<Rightarrow> vs | Some i \<Rightarrow> set_if (i \<noteq> 0) ''categ_id'' (VInt i) vs)"
  by (cases "lower (safe_str b (row_get row ''barcode'')) = ''nan''")
     (simp_all add: build_vals_def to_float_eq Let_def row_name_def row_code_def set_if_False
        split: option.split)



lemma import_row_eq:
  "row_code b row \<noteq> [] \<or> row_name b row \<noteq> [] \<Longrightarrow>
   import_row b srv self row tr =
     (case ensure_category b srv self (CStr (category_value b row)) tr of
        (Inl e, t1) \<Rightarrow> (Inl e, t1)
      | (Inr categ_id, t1) \<Rightarrow>
         (case build_vals b row categ_id of
            Inl e \<Rightarrow> (Inl e, t1)
          | Inr vs \<Rightarrow>
             (case rpc_search srv t1 (uid (client self)) ''product.template'' (natural_key b row) 1 of
                Inl e \<Rightarrow> (Inl e, t1 @ [Search ''product.template'' (natural_key b row) 1])
              | Inr [] \<Rightarrow>
                 (case rpc_create srv (t1 @ [Search ''product.template'' (natural_key b row) 1])
                         (uid (client self)) ''product.template'' vs of
                    Inl e \<Rightarrow> (Inl e, t1 @ [Search ''product.template'' (natural_key b row) 1,
                                            Create ''product.template'' vs])
                  | Inr new_id \<Rightarrow>
                      (Inr (''create: '' @ or_str (row_code b row) (row_name b row)),
                       t1 @ [Search ''product.template'' (natural_key b row) 1,
                             Create ''product.template'' vs]))
              | Inr (i # rest) \<Rightarrow>
                 (case rpc_write srv (t1 @ [Search ''product.template'' (natural_key b row) 1])
                         (uid (client self)) ''product.template'' [i] vs of
                    Inl e \<Rightarrow> (Inl e, t1 @ [Search ''product.template'' (natural_key b row) 1,
                                            Write ''product.template'' [i] vs])
                  | Inr ok \<Rightarrow>
                      (Inr (''update: '' @ or_str (row_code b row) (row_name b row)),
                       t1 @ [Search ''product.template'' (natural_key b row) 1,
                             Write ''product.template'' [i] vs])))))"
proof -
  assume h: "row_code b row \<noteq> [] \<or> row_name b row \<noteq> []"
  obtain r t1 where e: "ensure_category b srv self (CStr (category_value b row)) tr = (r, t1)"
    by fastforce
  note e' = e [unfolded category_value_def]
  have h': "\<not> (safe_str b (row_get row ''name'') = [] \<and> safe_str b (row_get row ''default_code'') = [])"
    using h by (auto simp: row_code_def row_name_def)
  show ?thesis
  proof (cases r)
    case (Inl err)
    then show ?thesis
      using h' e e' by (auto simp: import_row_def Let_def io_bind_def)
  next
    case (Inr categ_id)
    obtain vs where v: "build_vals b row categ_id = Inr vs"
      by (simp add: build_vals_eq)
    show ?thesis
      using h' e e' Inr v
      by (auto simp: import_row_def Let_def io_bind_def io_lift_def io_return_def
            client_search_def client_write_def client_create_def
            natural_key_def row_code_def row_name_def
          split: sum.split list.split)
  qed
qed

lemmas str_simps = strip_def isspace_def whitespace_def lower_def lower_char_def upper_chars_def
  lower_chars_def isdigit_def digit_chars_def replace_comma_def has_dot_def split_dot_def or_str_def

lemmas ref_simps = ref_builtins_def ref_int_def ref_float_def ref_unsigned_def ref_mantissa_def
  ref_exponent_def ref_round_def quoted_def is_decimal_def
  nat_of_digits_def digit_val_def

lemmas cell_simps = safe_str_def isna_def py_str_def row_get_def to_bool_def truthy_tokens_def
  parsed_price_def float_truthy_def row_code_def row_name_def category_value_def natural_key_def

lemma demo_row_code: "row_code ref_builtins (hd demo_rows) = ''SKU1''"
  by (simp add: demo_rows_def cell_simps str_simps)

lemma demo_row_name: "row_name ref_builtins (hd demo_rows) = ''Widget''"
  by (simp add: demo_rows_def cell_simps str_simps)

lemma demo_row_category: "category_value ref_builtins (hd demo_rows) = ''5''"
  by (simp add: demo_rows_def cell_simps str_simps)


lemma demo_row_price: "parsed_price ref_builtins (CStr ''10,50'') = Finite (21 / 2)"
  by (simp add: parsed_price_def py_str_def ref_simps str_simps)

lemma demo_row_vals: "build_vals ref_builtins (hd demo_rows) (Some 5) = Inr demo_vals"
  by (simp add: build_vals_eq demo_row_code demo_row_name Let_def set_if_def demo_vals_def)
     (simp add: demo_rows_def cell_simps str_simps ref_simps)

lemma demo_category:
  "ensure_category ref_builtins demo_server demo_importer (CStr ''5'') [] =
     (Inr (Some 5), [Search ''product.category'' [(''id'', ''='', VInt 5)] 1])"
  by (simp add: ensure_category_chain or_else_cases by_numeric_id_eq safe_str_def isna_def py_str_def
        str_simps ref_simps demo_server_def demo_importer_def table_server_def)

lemma demo_category_existing:
  "ensure_category ref_builtins demo_server_existing demo_importer (CStr ''5'') [] =
     (Inr (Some 5), [Search ''product.category'' [(''id'', ''='', VInt 5)] 1])"
  by (simp add: ensure_category_chain or_else_cases by_numeric_id_eq safe_str_def isna_def py_str_def
        str_simps ref_simps demo_server_existing_def demo_importer_def table_server_def)

text \<open>
  Claim C2. A row with a code or a name is looked up in \<open>product.template\<close> by exact code when
  the code is present and by exact name otherwise, with limit 1. When the search returns an
  id, the value map is written onto that record and the label is \<open>update:\<close> followed by the
  code, or by the name when there is no code; when it returns none, a record is created from
  the value map and the label is \<open>create:\<close> followed by the same identifier.
\<close>

theorem upsert_by_natural_key:
  assumes "code = safe_str b (row_get row ''default_code'')"
    and "name = safe_str b (row_get row ''name'')"
    and "code \<noteq> [] \<or> name \<noteq> []"
    and "key = (if code \<noteq> [] then [(''default_code'', ''='', VStr code)]
                else [(''name'', ''='', VStr name)])"
    and "ensure_category b srv self (CStr (category_value b row)) tr = (Inr categ_id, t1)"
    and "build_vals b row categ_id = Inr vs"
    and "rpc_search srv t1 (uid (client self)) ''product.template'' key 1 = Inr ids"
  shows "(\<forall>i rest ok.
            ids = i # rest \<and>
            rpc_write srv (t1 @ [Search ''product.template'' key 1]) (uid (client self))
              ''product.template'' [i] vs = Inr ok \<longrightarrow>
            import_row b srv self row tr =
              (Inr (''update: '' @ (if code \<noteq> [] then code else name)),
               t1 @ [Search ''product.template'' key 1, Write ''product.template'' [i] vs])) \<and>
         (\<forall>new_id.
            ids = [] \<and>
            rpc_create srv (t1 @ [Search ''product.template'' key 1]) (uid (client self))
              ''product.template'' vs = Inr new_id \<longrightarrow>
            import_row b srv self row tr =
              (Inr (''create: '' @ (if code \<noteq> [] then code else name)),
               t1 @ [Search ''product.template'' key 1, Create ''product.template'' vs]))"
proof -
  have c: "row_code b row = code" and n: "row_name b row = name"
    using assms(1,2) by (simp_all add: row_code_def row_name_def)
  have k: "natural_key b row = key"
    using assms(4) by (simp add: natural_key_def c n)
  have h: "row_code b row \<noteq> [] \<or> row_name b row \<noteq> []"
    using assms(3) by (simp add: c n)
  show ?thesis
    using assms(5,6,7) by (simp add: import_row_eq [OF h] k c n or_str_def)
qed

theorem upsert_by_natural_key_witness:
  "import_row ref_builtins demo_server_existing demo_importer (hd demo_rows) [] =
     (Inr ''update: SKU1'',
      [Search ''product.category'' [(''id'', ''='', VInt 5)] 1,
       Search ''product.template'' [(''default_code'', ''='', VStr ''SKU1'')] 1,
       Write ''product.template'' [42] demo_vals]) \<and>
   import_row ref_builtins demo_server demo_importer (hd demo_rows) [] =
     (Inr ''create: SKU1'',
      [Search ''product.category'' [(''id'', ''='', VInt 5)] 1,
       Search ''product.template'' [(''default_code'', ''='', VStr ''SKU1'')] 1,
       Create ''product.template'' demo_vals])"
proof -
  let ?key = "[(''default_code'', ''='', VStr ''SKU1'')]"
  let ?t1 = "[Search ''product.category'' [(''id'', ''='', VInt 5)] 1]"
  have c: "''SKU1'' = safe_str ref_builtins (row_get (hd demo_rows) ''default_code'')"
    using demo_row_code by (simp add: row_code_def)
  have n: "''Widget'' = safe_str ref_builtins (row_get (hd demo_rows) ''name'')"
    using demo_row_name by (simp add: row_name_def)
  have i: "''SKU1'' \<noteq> [] \<or> ''Widget'' \<noteq> []" by simp
  have k: "?key = (if ''SKU1'' \<noteq> [] then [(''default_code'', ''='', VStr ''SKU1'')]
                   else [(''name'', ''='', VStr ''Widget'')])" by simp
  have e1: "ensure_category ref_builtins demo_server_existing demo_importer
              (CStr (category_value ref_builtins (hd demo_rows))) [] = (Inr (Some 5), ?t1)"
    by (simp add: demo_row_category demo_category_existing)
  have e2: "ensure_category ref_builtins demo_server demo_importer
              (CStr (category_value ref_builtins (hd demo_rows))) [] = (Inr (Some 5), ?t1)"
    by (simp add: demo_row_category demo_category)
  have s1: "rpc_search demo_server_existing ?t1 (uid (client demo_importer)) ''product.template'' ?key 1
              = Inr [42]"
    by (simp add: demo_server_existing_def table_server_def)
  have s2: "rpc_search demo_server ?t1 (uid (client demo_importer)) ''product.template'' ?key 1 = Inr []"
    by (simp add: demo_server_def table_server_def)
  have w: "rpc_write demo_server_existing (?t1 @ [Search ''product.template'' ?key 1])
             (uid (client demo_importer)) ''product.template'' [42] demo_vals = Inr True"
    by (simp add: demo_server_existing_def table_server_def)
  have cr: "rpc_create demo_server (?t1 @ [Search ''product.template'' ?key 1])
             (uid (client demo_importer)) ''product.template'' demo_vals = Inr 11"
    by (simp add: demo_server_def table_server_def)
  from upsert_by_natural_key [OF c n i k e1 demo_row_vals s1] w
  have u: "import_row ref_builtins demo_server_existing demo_importer (hd demo_rows) [] =
     (Inr ''update: SKU1'', ?t1 @ [Search ''product.template'' ?key 1, Write ''product.template'' [42] demo_vals])"
    by auto
  from upsert_by_natural_key [OF c n i k e2 demo_row_vals s2] cr
  have v: "import_row ref_builtins demo_server demo_importer (hd demo_rows) [] =
     (Inr ''create: SKU1'', ?t1 @ [Search ''product.template'' ?key 1, Create ''product.template'' demo_vals])"
    by auto
  from u v show ?thesis by simp
qed

subsection \<open>Calls of the category resolver\<close>

lemma counts_append [simp]:
  "searches (xs @ ys) = searches xs + searches ys" "reads (xs @ ys) = reads xs + reads ys"
  by (simp_all add: searches_def reads_def)

lemma counts_simps [simp]:
  "searches [] = 0" "reads [] = 0"
  "searches (Search m d l # cs) = Suc (searches cs)" "reads (Search m d l # cs) = reads cs"
  "searches (Read m i f # cs) = searches cs" "reads (Read m i f # cs) = Suc (reads cs)"
  by (simp_all add: searches_def reads_def)

lemma by_numeric_id_count:
  "by_numeric_id b srv c value tr = (r, tr') \<Longrightarrow>
   \<exists>cs. tr' = tr @ cs \<and> searches cs \<le> 1 \<and> reads cs = 0 \<and> length cs = searches cs \<and>
        (\<not> isdigit value \<longrightarrow> cs = [])"
  by (auto simp: by_numeric_id_eq split: if_split_asm sum.split_asm)

lemma by_xml_id_count:
  "by_xml_id srv c value tr = (r, tr') \<Longrightarrow>
   \<exists>cs. tr' = tr @ cs \<and> searches cs \<le> 1 \<and> reads cs \<le> 1 \<and> length cs = searches cs + reads cs \<and>
        (\<not> has_dot value \<longrightarrow> cs = []) \<and> (reads_bound srv \<and> r = Inr None \<longrightarrow> reads cs = 0)"
  by (auto simp: by_xml_id_eq reads_bound_def split: if_split_asm sum.split_asm) blast

lemma by_external_id_count:
  "by_external_id srv c value tr = (r, tr') \<Longrightarrow>
   \<exists>cs. tr' = tr @ cs \<and> searches cs \<le> 1 \<and> reads cs \<le> 1 \<and> length cs = searches cs + reads cs \<and>
        (reads_bound srv \<and> r = Inr None \<longrightarrow> reads cs = 0)"
  by (auto simp: by_external_id_eq reads_bound_def split: if_split_asm sum.split_asm) blast

lemma by_name_count:
  "by_name srv c value tr = (r, tr') \<Longrightarrow>
   \<exists>cs. tr' = tr @ cs \<and> searches cs \<le> 1 \<and> reads cs = 0 \<and> length cs = searches cs"
  by (auto simp: by_name_eq split: if_split_asm sum.split_asm)

lemma ensure_category_stages:
  assumes "safe_str b v \<noteq> []" and "ensure_category b srv self v tr = (r, tr')"
  shows "(by_numeric_id b srv (client self) (safe_str b v) tr = (r, tr') \<and> r \<noteq> Inr None) \<or>
         (\<exists>t1. by_numeric_id b srv (client self) (safe_str b v) tr = (Inr None, t1) \<and>
            ((by_xml_id srv (client self) (safe_str b v) t1 = (r, tr') \<and> r \<noteq> Inr None) \<or>
             (\<exists>t2. by_xml_id srv (client self) (safe_str b v) t1 = (Inr None, t2) \<and>
                ((by_external_id srv (client self) (safe_str b v) t2 = (r, tr') \<and> r \<noteq> Inr None) \<or>
                 (\<exists>t3. by_external_id srv (client self) (safe_str b v) t2 = (Inr None, t3) \<and>
                    by_name srv (client self) (safe_str b v) t3 = (r, tr'))))))"
  using assms(2)
  by (auto simp: ensure_category_chain [OF assms(1)] or_else_cases
           split: prod.split_asm sum.split_asm option.split_asm)

text \<open>
  Claim C4, as the code has it. One call of the category resolver adds at most five remote
  calls to the trace: at most three searches, one for each strategy that is tried (a numeric
  token has no dot, so the first two strategies never both search), and at most two reads,
  one for each registry hit. When every registry record that is read carries a bound id,
  the resolver adds at most three calls.
\<close>

theorem category_resolution_call_bound:
  assumes "ensure_category b srv self v tr = (r, tr')"
  shows "\<exists>cs. tr' = tr @ cs \<and> searches cs \<le> 3 \<and> reads cs \<le> 2 \<and>
              length cs = searches cs + reads cs \<and> length cs \<le> 5 \<and>
              (reads_bound srv \<longrightarrow> length cs \<le> 3)"
proof (cases "safe_str b v = []")
  case True
  then have "tr' = tr @ []" using assms by (simp add: ensure_category_blank)
  then show ?thesis by (intro exI [of _ "[]"]) simp
next
  case False
  let ?x = "safe_str b v" and ?c = "client self"
  note stages = ensure_category_stages [OF False assms]
  have excl: "\<not> isdigit ?x \<or> \<not> has_dot ?x" using isdigit_no_dot by blast
  consider
    (one) "by_numeric_id b srv ?c ?x tr = (r, tr')"
  | (two) t1 where "by_numeric_id b srv ?c ?x tr = (Inr None, t1)"
      "by_xml_id srv ?c ?x t1 = (r, tr')"
  | (three) t1 t2 where "by_numeric_id b srv ?c ?x tr = (Inr None, t1)"
      "by_xml_id srv ?c ?x t1 = (Inr None, t2)" "by_external_id srv ?c ?x t2 = (r, tr')"
  | (four) t1 t2 t3 where "by_numeric_id b srv ?c ?x tr = (Inr None, t1)"
      "by_xml_id srv ?c ?x t1 = (Inr None, t2)" "by_external_id srv ?c ?x t2 = (Inr None, t3)"
      "by_name srv ?c ?x t3 = (r, tr')"
    using stages by blast
  then show ?thesis
  proof cases
    case one
    from by_numeric_id_count [OF one] obtain c1 where
      "tr' = tr @ c1" "searches c1 \<le> 1" "reads c1 = 0" "length c1 = searches c1"
      by blast
    then show ?thesis by (intro exI [of _ c1]) simp
  next
    case two
    from by_numeric_id_count [OF two(1)] obtain c1 where
      c1: "t1 = tr @ c1" "searches c1 \<le> 1" "reads c1 = 0" "length c1 = searches c1"
      by blast
    from by_xml_id_count [OF two(2)] obtain c2 where
      c2: "tr' = t1 @ c2" "searches c2 \<le> 1" "reads c2 \<le> 1" "length c2 = searches c2 + reads c2"
      by blast
    show ?thesis using c1 c2 by (intro exI [of _ "c1 @ c2"]) simp
  next
    case three
    from by_numeric_id_count [OF three(1)] obtain c1 where
      c1: "t1 = tr @ c1" "searches c1 \<le> 1" "reads c1 = 0" "length c1 = searches c1"
        "\<not> isdigit ?x \<longrightarrow> c1 = []"
      by blast
    from by_xml_id_count [OF three(2)] obtain c2 where
      c2: "t2 = t1 @ c2" "searches c2 \<le> 1" "reads c2 \<le> 1" "length c2 = searches c2 + reads c2"
        "\<not> has_dot ?x \<longrightarrow> c2 = []" "reads_bound srv \<longrightarrow> reads c2 = 0"
      by blast
    from by_external_id_count [OF three(3)] obtain c3 where
      c3: "tr' = t2 @ c3" "searches c3 \<le> 1" "reads c3 \<le> 1" "length c3 = searches c3 + reads c3"
      by blast
    have first: "searches c1 + searches c2 \<le> 1"
      using excl c1 c2 by auto
    show ?thesis using c1 c2 c3 first by (intro exI [of _ "c1 @ c2 @ c3"]) auto
  next
    case four
    from by_numeric_id_count [OF four(1)] obtain c1 where
      c1: "t1 = tr @ c1" "searches c1 \<le> 1" "reads c1 = 0" "length c1 = searches c1"
        "\<not> isdigit ?x \<longrightarrow> c1 = []"
      by blast
    from by_xml_id_count [OF four(2)] obtain c2 where
      c2: "t2 = t1 @ c2" "searches c2 \<le> 1" "reads c2 \<le> 1" "length c2 = searches c2 + reads c2"
        "\<not> has_dot ?x \<longrightarrow> c2 = []" "reads_bound srv \<longrightarrow> reads c2 = 0"
      by blast
    from by_external_id_count [OF four(3)] obtain c3 where
      c3: "t3 = t2 @ c3" "searches c3 \<le> 1" "reads c3 \<le> 1" "length c3 = searches c3 + reads c3"
        "reads_bound srv \<longrightarrow> reads c3 = 0"
      by blast
    from by_name_count [OF four(4)] obtain c4 where
      c4: "tr' = t3 @ c4" "searches c4 \<le> 1" "reads c4 = 0" "length c4 = searches c4"
      by blast
    have first: "searches c1 + searches c2 \<le> 1"
      using excl c1 c2 by auto
    show ?thesis using c1 c2 c3 c4 first by (intro exI [of _ "c1 @ c2 @ c3 @ c4"]) auto
  qed
qed

lemma safe_str_CStr: "safe_str b (CStr s) = strip s"
  by (simp add: safe_str_def isna_def py_str_def)

lemma demo_stale_resolution:
  "ensure_category ref_builtins demo_server_stale demo_importer (CStr ''base.cat'') [] =
     (Inr None,
      [Search ''ir.model.data'' (xml_domain ''base.cat'') 1,
       Read ''ir.model.data'' [7] [''res_id''],
       Search ''ir.model.data'' (ext_domain ''base.cat'') 1,
       Read ''ir.model.data'' [7] [''res_id''],
       Search ''product.category'' [(''name'', ''='', VStr ''base.cat'')] 1])"
proof -
  have x: "safe_str ref_builtins (CStr ''base.cat'') = ''base.cat''"
    by (simp add: safe_str_CStr str_simps)
  have d: "\<not> isdigit ''base.cat''" "has_dot ''base.cat''"
    by (simp_all add: str_simps)
  have n: "safe_str ref_builtins (CStr ''base.cat'') \<noteq> []" by (simp add: x)
  show ?thesis
    by (simp add: ensure_category_chain [OF n] x or_else_cases by_numeric_id_eq by_xml_id_eq
          by_external_id_eq by_name_eq d
          demo_server_stale_def table_server_def bound_id_def xml_domain_def ext_domain_def
          str_simps)
qed

text \<open>
  As stated, claim C4 fails: when the registry answers both lookups of \<open>base.cat\<close> with a
  record that has no bound id, the resolver goes through two searches with their reads and a
  last search, five remote calls.
\<close>

theorem category_resolution_five_calls_counterexample:
  "snd (ensure_category ref_builtins demo_server_stale demo_importer (CStr ''base.cat'') []) =
     [Search ''ir.model.data'' (xml_domain ''base.cat'') 1,
      Read ''ir.model.data'' [7] [''res_id''],
      Search ''ir.model.data'' (ext_domain ''base.cat'') 1,
      Read ''ir.model.data'' [7] [''res_id''],
      Search ''product.category'' [(''name'', ''='', VStr ''base.cat'')] 1] \<and>
   \<not> length (snd (ensure_category ref_builtins demo_server_stale demo_importer
                     (CStr ''base.cat'') [])) \<le> 3"
  by (simp add: demo_stale_resolution)

lemma demo_registry_bound: "reads_bound demo_server_registry"
  by (simp add: reads_bound_def demo_server_registry_def table_server_def bound_id_def)

lemma demo_registry_unknown:
  "ensure_category ref_builtins demo_server_registry demo_importer (CStr ''7'') [] =
     (Inr None,
      [Search ''product.category'' [(''id'', ''='', VInt 7)] 1,
       Search ''ir.model.data'' (ext_domain ''7'') 1,
       Search ''product.category'' [(''name'', ''='', VStr ''7'')] 1])"
proof -
  have x: "safe_str ref_builtins (CStr ''7'') = ''7''"
    by (simp add: safe_str_CStr str_simps)
  have d: "isdigit ''7''" "\<not> has_dot ''7''" "int_str ref_builtins ''7'' = Inr 7"
    by (simp_all add: str_simps ref_simps)
  have n: "safe_str ref_builtins (CStr ''7'') \<noteq> []" by (simp add: x)
  show ?thesis
    by (simp add: ensure_category_chain [OF n] x or_else_cases by_numeric_id_eq by_xml_id_eq
          by_external_id_eq by_name_eq d
          demo_server_registry_def table_server_def ext_domain_def)
qed

theorem category_resolution_call_bound_witness:
  "reads_bound demo_server_registry \<and>
   ensure_category ref_builtins demo_server_registry demo_importer (CStr ''7'') [] =
     (Inr None,
      [Search ''product.category'' [(''id'', ''='', VInt 7)] 1,
       Search ''ir.model.data'' (ext_domain ''7'') 1,
       Search ''product.category'' [(''name'', ''='', VStr ''7'')] 1]) \<and>
   (\<exists>cs. [Search ''product.category'' [(''id'', ''='', VInt 7)] 1,
          Search ''ir.model.data'' (ext_domain ''7'') 1,
          Search ''product.category'' [(''name'', ''='', VStr ''7'')] 1] = [] @ cs \<and>
         searches cs \<le> 3 \<and> reads cs \<le> 2 \<and> length cs = searches cs + reads cs \<and>
         length cs \<le> 5 \<and> length cs \<le> 3)"
  using category_resolution_call_bound [OF demo_registry_unknown] demo_registry_bound
        demo_registry_unknown
  by blast

subsection \<open>One worker\<close>








subsection \<open>The Series of a row\<close>

lemma pd_series_fixed:
  assumes "\<And>key v. row_dict key = Some v \<Longrightarrow> to_float64 b v = v"
  shows "pd_series b row_dict = row_dict"
proof (cases "series_dtype row_dict = DFloat64")
  case True
  have "(\<lambda>key. map_option (to_float64 b) (row_dict key)) = row_dict"
  proof
    fix key
    show "map_option (to_float64 b) (row_dict key) = row_dict key"
      using assms [of key] by (cases "row_dict key") simp_all
  qed
  then show ?thesis by (simp add: pd_series_def)
next
  case False
  then show ?thesis by (simp add: pd_series_def)
qed







lemma blank_row_series: "pd_series b blank_row = blank_row"
  by (rule pd_series_fixed) (auto simp: blank_row_def to_float64_def split: if_split_asm)













lemma import_row_stage_failures:
  assumes "row_code b row \<noteq> [] \<or> row_name b row \<noteq> []"
  shows "(ensure_category b srv self (CStr (category_value b row)) tr = (Inl e, t1)
            \<longrightarrow> import_row b srv self row tr = (Inl e, t1))"
    and "(ensure_category b srv self (CStr (category_value b row)) tr = (Inr categ_id, t1) \<and>
          rpc_search srv t1 (uid (client self)) ''product.template'' (natural_key b row) 1 = Inl e
            \<longrightarrow> import_row b srv self row tr =
                  (Inl e, t1 @ [Search ''product.template'' (natural_key b row) 1]))"
    and "(ensure_category b srv self (CStr (category_value b row)) tr = (Inr categ_id, t1) \<and>
          build_vals b row categ_id = Inr vs \<and>
          rpc_search srv t1 (uid (client self)) ''product.template'' (natural_key b row) 1 = Inr (i # rest) \<and>
          rpc_write srv (t1 @ [Search ''product.template'' (natural_key b row) 1]) (uid (client self))
            ''product.template'' [i] vs = Inl e
            \<longrightarrow> import_row b srv self row tr =
                  (Inl e, t1 @ [Search ''product.template'' (natural_key b row) 1,
                                Write ''product.template'' [i] vs]))"
    and "(ensure_category b srv self (CStr (category_value b row)) tr = (Inr categ_id, t1) \<and>
          build_vals b row categ_id = Inr vs \<and>
          rpc_search srv t1 (uid (client self)) ''product.template'' (natural_key b row) 1 = Inr [] \<and>
          rpc_create srv (t1 @ [Search ''product.template'' (natural_key b row) 1]) (uid (client self))
            ''product.template'' vs = Inl e
            \<longrightarrow> import_row b srv self row tr =
                  (Inl e, t1 @ [Search ''product.template'' (natural_key b row) 1,
                                Create ''product.template'' vs]))"
  by (simp_all add: import_row_eq [OF assms] build_vals_eq)













lemma ensure_category_first_match:
  assumes "safe_str b v \<noteq> []"
  shows "ensure_category b srv self v tr =
     (case by_numeric_id b srv (client self) (safe_str b v) tr of
        (Inr None, t1) \<Rightarrow>
          (case by_xml_id srv (client self) (safe_str b v) t1 of
             (Inr None, t2) \<Rightarrow>
               (case by_external_id srv (client self) (safe_str b v) t2 of
                  (Inr None, t3) \<Rightarrow> by_name srv (client self) (safe_str b v) t3
                | (Inr (Some i), t3) \<Rightarrow> (Inr (Some i), t3)
                | (Inl e, t3) \<Rightarrow> (Inl e, t3))
           | (Inr (Some i), t2) \<Rightarrow> (Inr (Some i), t2)
           | (Inl e, t2) \<Rightarrow> (Inl e, t2))
      | (Inr (Some i), t1) \<Rightarrow> (Inr (Some i), t1)
      | (Inl e, t1) \<Rightarrow> (Inl e, t1))"
  by (simp add: ensure_category_chain [OF assms] or_else_cases
           split: prod.split sum.split option.split)

text \<open>
  The order of the strategies. For a token that \<^verbatim>\<open>int\<close> accepts whenever it is numeric, the
  resolver returns what the first of the four strategies returns: a numeric token that the
  search by id confirms is resolved by that one search, whatever the registry holds, and a
  token that only the search by name answers is resolved by it after the earlier lookups
  have found nothing.
\<close>

lemma category_precedence:
  assumes "x = safe_str b v" and "x \<noteq> []" and "u = uid (client self)"
  shows "ensure_category b srv self v tr =
           (case by_numeric_id b srv (client self) x tr of
              (Inr None, t1) \<Rightarrow>
                (case by_xml_id srv (client self) x t1 of
                   (Inr None, t2) \<Rightarrow>
                     (case by_external_id srv (client self) x t2 of
                        (Inr None, t3) \<Rightarrow> by_name srv (client self) x t3
                      | (Inr (Some i), t3) \<Rightarrow> (Inr (Some i), t3)
                      | (Inl e, t3) \<Rightarrow> (Inl e, t3))
                 | (Inr (Some i), t2) \<Rightarrow> (Inr (Some i), t2)
                 | (Inl e, t2) \<Rightarrow> (Inl e, t2))
            | (Inr (Some i), t1) \<Rightarrow> (Inr (Some i), t1)
            | (Inl e, t1) \<Rightarrow> (Inl e, t1)) \<and>
         (\<forall>n i rest.
            isdigit x \<and> int_str b x = Inr n \<and>
            rpc_search srv tr u ''product.category'' [(''id'', ''='', VInt n)] 1 = Inr (i # rest) \<longrightarrow>
            ensure_category b srv self v tr =
              (Inr (Some i), tr @ [Search ''product.category'' [(''id'', ''='', VInt n)] 1])) \<and>
         (\<forall>n i rest t1 t2.
            (isdigit x \<longrightarrow> int_str b x = Inr n \<and>
               rpc_search srv tr u ''product.category'' [(''id'', ''='', VInt n)] 1 = Inr []) \<and>
            t1 = (if isdigit x then tr @ [Search ''product.category'' [(''id'', ''='', VInt n)] 1]
                  else tr) \<and>
            (has_dot x \<longrightarrow> rpc_search srv t1 u ''ir.model.data'' (xml_domain x) 1 = Inr []) \<and>
            t2 = (if has_dot x then t1 @ [Search ''ir.model.data'' (xml_domain x) 1] else t1) \<and>
            rpc_search srv t2 u ''ir.model.data'' (ext_domain x) 1 = Inr [] \<and>
            rpc_search srv (t2 @ [Search ''ir.model.data'' (ext_domain x) 1]) u
              ''product.category'' [(''name'', ''='', VStr x)] 1 = Inr (i # rest) \<longrightarrow>
            ensure_category b srv self v tr =
              (Inr (Some i),
               t2 @ [Search ''ir.model.data'' (ext_domain x) 1,
                     Search ''product.category'' [(''name'', ''='', VStr x)] 1]))"
proof (intro conjI allI impI)
  have n: "safe_str b v \<noteq> []" using assms by simp
  show "ensure_category b srv self v tr =
           (case by_numeric_id b srv (client self) x tr of
              (Inr None, t1) \<Rightarrow>
                (case by_xml_id srv (client self) x t1 of
                   (Inr None, t2) \<Rightarrow>
                     (case by_external_id srv (client self) x t2 of
                        (Inr None, t3) \<Rightarrow> by_name srv (client self) x t3
                      | (Inr (Some i), t3) \<Rightarrow> (Inr (Some i), t3)
                      | (Inl e, t3) \<Rightarrow> (Inl e, t3))
                 | (Inr (Some i), t2) \<Rightarrow> (Inr (Some i), t2)
                 | (Inl e, t2) \<Rightarrow> (Inl e, t2))
            | (Inr (Some i), t1) \<Rightarrow> (Inr (Some i), t1)
            | (Inl e, t1) \<Rightarrow> (Inl e, t1))"
    unfolding assms(1) by (rule ensure_category_first_match [OF n])
next
  fix n i rest
  assume h: "isdigit x \<and> int_str b x = Inr n \<and>
            rpc_search srv tr u ''product.category'' [(''id'', ''='', VInt n)] 1 = Inr (i # rest)"
  have n: "safe_str b v \<noteq> []" using assms by simp
  have "by_numeric_id b srv (client self) x tr =
          (Inr (Some i), tr @ [Search ''product.category'' [(''id'', ''='', VInt n)] 1])"
    using h by (simp add: by_numeric_id_eq assms(3))
  then show "ensure_category b srv self v tr =
              (Inr (Some i), tr @ [Search ''product.category'' [(''id'', ''='', VInt n)] 1])"
    by (simp add: ensure_category_first_match [OF n] assms(1) [symmetric])
next
  fix n i rest t1 t2
  assume h: "(isdigit x \<longrightarrow> int_str b x = Inr n \<and>
               rpc_search srv tr u ''product.category'' [(''id'', ''='', VInt n)] 1 = Inr []) \<and>
            t1 = (if isdigit x then tr @ [Search ''product.category'' [(''id'', ''='', VInt n)] 1]
                  else tr) \<and>
            (has_dot x \<longrightarrow> rpc_search srv t1 u ''ir.model.data'' (xml_domain x) 1 = Inr []) \<and>
            t2 = (if has_dot x then t1 @ [Search ''ir.model.data'' (xml_domain x) 1] else t1) \<and>
            rpc_search srv t2 u ''ir.model.data'' (ext_domain x) 1 = Inr [] \<and>
            rpc_search srv (t2 @ [Search ''ir.model.data'' (ext_domain x) 1]) u
              ''product.category'' [(''name'', ''='', VStr x)] 1 = Inr (i # rest)"
  have n: "safe_str b v \<noteq> []" using assms by simp
  have b1: "by_numeric_id b srv (client self) x tr = (Inr None, t1)"
    using h by (simp add: by_numeric_id_eq assms(3))
  have b2: "by_xml_id srv (client self) x t1 = (Inr None, t2)"
    using h isdigit_no_dot [of x] by (cases "has_dot x") (auto simp: by_xml_id_eq assms(3))
  have h3: "rpc_search srv t2 u ''ir.model.data'' (ext_domain x) 1 = Inr []"
    and h4: "rpc_search srv (t2 @ [Search ''ir.model.data'' (ext_domain x) 1]) u
              ''product.category'' [(''name'', ''='', VStr x)] 1 = Inr (i # rest)"
    using h by blast+
  have b3: "by_external_id srv (client self) x t2 =
              (Inr None, t2 @ [Search ''ir.model.data'' (ext_domain x) 1])"
    using h3 by (simp add: by_external_id_eq assms(3))
  have b4: "by_name srv (client self) x (t2 @ [Search ''ir.model.data'' (ext_domain x) 1]) =
              (Inr (Some i), t2 @ [Search ''ir.model.data'' (ext_domain x) 1,
                                   Search ''product.category'' [(''name'', ''='', VStr x)] 1])"
    using h4 by (simp add: by_name_eq assms(3))
  show "ensure_category b srv self v tr =
              (Inr (Some i),
               t2 @ [Search ''ir.model.data'' (ext_domain x) 1,
                     Search ''product.category'' [(''name'', ''='', VStr x)] 1])"
    using b1 b2 b3 b4 by (simp add: ensure_category_first_match [OF n] assms(1) [symmetric])
qed

lemma category_precedence_example:
  "rpc_search demo_server_registry [] 2 ''ir.model.data'' (ext_domain ''5'') 1 = Inr [7] \<and>
   ensure_category ref_builtins demo_server_registry demo_importer (CStr ''5'') [] =
     (Inr (Some 5), [Search ''product.category'' [(''id'', ''='', VInt 5)] 1]) \<and>
   ensure_category ref_builtins demo_server_registry demo_importer (CStr ''Widgets'') [] =
     (Inr (Some 9),
      [Search ''ir.model.data'' (ext_domain ''Widgets'') 1,
       Search ''product.category'' [(''name'', ''='', VStr ''Widgets'')] 1])"
proof -
  have u: "(2::int) = uid (client demo_importer)" by (simp add: demo_importer_def)
  have x5: "''5'' = safe_str ref_builtins (CStr ''5'')" "''5'' \<noteq> []"
    by (simp_all add: safe_str_CStr str_simps)
  have xw: "''Widgets'' = safe_str ref_builtins (CStr ''Widgets'')" "''Widgets'' \<noteq> []"
    by (simp_all add: safe_str_CStr str_simps)
  have reg: "rpc_search demo_server_registry [] 2 ''ir.model.data'' (ext_domain ''5'') 1 = Inr [7]"
    by (simp add: demo_server_registry_def table_server_def ext_domain_def)
  have h5: "isdigit ''5'' \<and> int_str ref_builtins ''5'' = Inr 5 \<and>
            rpc_search demo_server_registry [] 2 ''product.category'' [(''id'', ''='', VInt 5)] 1
              = Inr (5 # [])"
    by (simp add: str_simps ref_simps demo_server_registry_def table_server_def)
  have hw: "(isdigit ''Widgets'' \<longrightarrow> int_str ref_builtins ''Widgets'' = Inr 0 \<and>
               rpc_search demo_server_registry [] 2 ''product.category'' [(''id'', ''='', VInt 0)] 1
                 = Inr []) \<and>
            [] = (if isdigit ''Widgets'' then [] @ [Search ''product.category'' [(''id'', ''='', VInt 0)] 1]
                  else []) \<and>
            (has_dot ''Widgets'' \<longrightarrow>
               rpc_search demo_server_registry [] 2 ''ir.model.data'' (xml_domain ''Widgets'') 1 = Inr []) \<and>
            [] = (if has_dot ''Widgets'' then [] @ [Search ''ir.model.data'' (xml_domain ''Widgets'') 1]
                  else []) \<and>
            rpc_search demo_server_registry [] 2 ''ir.model.data'' (ext_domain ''Widgets'') 1 = Inr [] \<and>
            rpc_search demo_server_registry ([] @ [Search ''ir.model.data'' (ext_domain ''Widgets'') 1]) 2
              ''product.category'' [(''name'', ''='', VStr ''Widgets'')] 1 = Inr (9 # [])"
    by (simp add: str_simps demo_server_registry_def table_server_def ext_domain_def)
  have a: "ensure_category ref_builtins demo_server_registry demo_importer (CStr ''5'') [] =
             (Inr (Some 5), [] @ [Search ''product.category'' [(''id'', ''='', VInt 5)] 1])"
    using category_precedence [OF x5 u, of demo_server_registry "[]", THEN conjunct2,
            THEN conjunct1, rule_format, OF h5] .
  have c: "ensure_category ref_builtins demo_server_registry demo_importer (CStr ''Widgets'') [] =
             (Inr (Some 9),
              [] @ [Search ''ir.model.data'' (ext_domain ''Widgets'') 1,
                    Search ''product.category'' [(''name'', ''='', VStr ''Widgets'')] 1])"
    using category_precedence [OF xw u, of demo_server_registry "[]", THEN conjunct2,
            THEN conjunct2, rule_format, OF hw] .
  from reg a c show ?thesis by simp
qed

text \<open>A registry hit resolves the token to the id bound to the first record that is read.\<close>

lemma registry_hit_resolves:
  assumes "x = safe_str b v" and "x \<noteq> []" and "u = uid (client self)" and "\<not> isdigit x"
  shows "(has_dot x \<and> ids \<noteq> [] \<and>
          rpc_search srv tr u ''ir.model.data'' (xml_domain x) 1 = Inr ids \<and>
          rpc_read srv (tr @ [Search ''ir.model.data'' (xml_domain x) 1]) u
            ''ir.model.data'' ids [''res_id''] = Inr recs \<and>
          bound_id recs = Some i \<longrightarrow>
          ensure_category b srv self v tr =
            (Inr (Some i),
             tr @ [Search ''ir.model.data'' (xml_domain x) 1,
                   Read ''ir.model.data'' ids [''res_id'']])) \<and>
         (\<not> has_dot x \<and> ids \<noteq> [] \<and>
          rpc_search srv tr u ''ir.model.data'' (ext_domain x) 1 = Inr ids \<and>
          rpc_read srv (tr @ [Search ''ir.model.data'' (ext_domain x) 1]) u
            ''ir.model.data'' ids [''res_id''] = Inr recs \<and>
          bound_id recs = Some i \<longrightarrow>
          ensure_category b srv self v tr =
            (Inr (Some i),
             tr @ [Search ''ir.model.data'' (ext_domain x) 1,
                   Read ''ir.model.data'' ids [''res_id'']]))"
proof (intro conjI impI)
  have n: "safe_str b v \<noteq> []" using assms by simp
  have b1: "by_numeric_id b srv (client self) x tr = (Inr None, tr)"
    using assms(4) by (simp add: by_numeric_id_eq)
  {
    assume h: "has_dot x \<and> ids \<noteq> [] \<and>
          rpc_search srv tr u ''ir.model.data'' (xml_domain x) 1 = Inr ids \<and>
          rpc_read srv (tr @ [Search ''ir.model.data'' (xml_domain x) 1]) u
            ''ir.model.data'' ids [''res_id''] = Inr recs \<and>
          bound_id recs = Some i"
    then have b2: "by_xml_id srv (client self) x tr =
        (Inr (Some i), tr @ [Search ''ir.model.data'' (xml_domain x) 1,
                             Read ''ir.model.data'' ids [''res_id'']])"
      by (simp add: by_xml_id_eq assms(3))
    show "ensure_category b srv self v tr =
            (Inr (Some i),
             tr @ [Search ''ir.model.data'' (xml_domain x) 1,
                   Read ''ir.model.data'' ids [''res_id'']])"
      using b1 b2 by (simp add: ensure_category_first_match [OF n] assms(1) [symmetric])
  }
  {
    assume h: "\<not> has_dot x \<and> ids \<noteq> [] \<and>
          rpc_search srv tr u ''ir.model.data'' (ext_domain x) 1 = Inr ids \<and>
          rpc_read srv (tr @ [Search ''ir.model.data'' (ext_domain x) 1]) u
            ''ir.model.data'' ids [''res_id''] = Inr recs \<and>
          bound_id recs = Some i"
    then have b2: "by_xml_id srv (client self) x tr = (Inr None, tr)"
      by (simp add: by_xml_id_eq)
    have b3: "by_external_id srv (client self) x tr =
        (Inr (Some i), tr @ [Search ''ir.model.data'' (ext_domain x) 1,
                             Read ''ir.model.data'' ids [''res_id'']])"
      using h by (simp add: by_external_id_eq assms(3))
    show "ensure_category b srv self v tr =
            (Inr (Some i),
             tr @ [Search ''ir.model.data'' (ext_domain x) 1,
                   Read ''ir.model.data'' ids [''res_id'']])"
      using b1 b2 b3 by (simp add: ensure_category_first_match [OF n] assms(1) [symmetric])
  }
qed

text \<open>
  Claim C3 on the code. The precedence holds for every token that \<^verbatim>\<open>int\<close> accepts when
  \<^verbatim>\<open>isdigit\<close> holds of it (lemmas \<open>category_precedence\<close> and \<open>registry_hit_resolves\<close>). It
  fails for a token of digit characters that are not decimal digits: the superscript two
  (U+00B2) passes \<^verbatim>\<open>isdigit\<close>, \<^verbatim>\<open>int\<close> raises on it, and the resolver raises before any
  remote call, although the search by name alone would have resolved the token.
\<close>

theorem superscript_digit_token_raises:
  "isdigit [CHR 0xB2] \<and>
   ensure_category ref_builtins demo_server_superscript demo_importer (CStr [CHR 0xB2]) [] =
     (Inl (Fault (''invalid literal for int() with base 10: '' @ quoted [CHR 0xB2])), []) \<and>
   by_name demo_server_superscript (client demo_importer) [CHR 0xB2] [] =
     (Inr (Some 9), [Search ''product.category'' [(''name'', ''='', VStr [CHR 0xB2])] 1])"
proof -
  have d: "isdigit [CHR 0xB2]" by (simp add: isdigit_def digit_chars_def)
  have x: "safe_str ref_builtins (CStr [CHR 0xB2]) = [CHR 0xB2]"
    by (simp add: safe_str_CStr strip_def isspace_def whitespace_def)
  have n: "safe_str ref_builtins (CStr [CHR 0xB2]) \<noteq> []" by (simp add: x)
  have i: "int_str ref_builtins [CHR 0xB2] =
             Inl (Fault (''invalid literal for int() with base 10: '' @ quoted [CHR 0xB2]))"
    by (simp add: ref_builtins_def ref_int_def is_decimal_def)
  have e: "ensure_category ref_builtins demo_server_superscript demo_importer (CStr [CHR 0xB2]) [] =
     (Inl (Fault (''invalid literal for int() with base 10: '' @ quoted [CHR 0xB2])), [])"
    by (simp add: ensure_category_first_match [OF n] x by_numeric_id_eq d i)
  have b: "by_name demo_server_superscript (client demo_importer) [CHR 0xB2] [] =
     (Inr (Some 9), [Search ''product.category'' [(''name'', ''='', VStr [CHR 0xB2])] 1])"
    by (simp add: by_name_eq demo_server_superscript_def table_server_def)
  from d e b show ?thesis by simp
qed

end
